theory Spec2Isabelle
  imports Complex_Main
begin

section \<open>Python values and the operations the script applies to them\<close>

text \<open>
  The two services answer with JSON, which \<^verbatim>\<open>resposta.json()\<close> decodes into Python
  values: \<^verbatim>\<open>None\<close>, booleans, numbers, strings, lists and dictionaries with string
  keys. A dictionary is an association list with distinct keys, in insertion order.
  A string is a list of characters, one \<open>char\<close> per Python character.
\<close>

datatype json =
    JNull
  | JBool bool
  | JInt int
  | JFloat real
  | JStr string
  | JList "json list"
  | JDict "(string \<times> json) list"

text \<open>The exceptions that the operations below raise in Python.\<close>

datatype py_error = KeyError | IndexError | TypeError | AttributeError | ValueError

text \<open>A raised exception is \<open>Inl\<close>; it ends every computation it occurs in.\<close>

fun ebind :: "'e + 'a \<Rightarrow> ('a \<Rightarrow> 'e + 'b) \<Rightarrow> 'e + 'b" where
  "ebind (Inl e) f = Inl e"
| "ebind (Inr x) f = f x"

text \<open>Truth value of an object, as \<^verbatim>\<open>x if x else d\<close> and \<^verbatim>\<open>if x:\<close> test it.\<close>

fun truthy :: "json \<Rightarrow> bool" where
  "truthy JNull = False"
| "truthy (JBool b) = b"
| "truthy (JInt n) = (n \<noteq> 0)"
| "truthy (JFloat x) = (x \<noteq> 0)"
| "truthy (JStr s) = (s \<noteq> [])"
| "truthy (JList xs) = (xs \<noteq> [])"
| "truthy (JDict kvs) = (kvs \<noteq> [])"

text \<open>\<^verbatim>\<open>isinstance(x, dict)\<close>.\<close>

fun is_dict :: "json \<Rightarrow> bool" where
  "is_dict (JDict kvs) = True"
| "is_dict v = False"

text \<open>\<^verbatim>\<open>x.get(k, d)\<close>: only dictionaries have the method.\<close>

fun py_get :: "json \<Rightarrow> string \<Rightarrow> json \<Rightarrow> py_error + json" where
  "py_get (JDict kvs) k d = Inr (case map_of kvs k of None \<Rightarrow> d | Some v \<Rightarrow> v)"
| "py_get v k d = Inl AttributeError"

text \<open>\<^verbatim>\<open>x[k]\<close> with a string key \<open>k\<close>.\<close>

fun py_key :: "json \<Rightarrow> string \<Rightarrow> py_error + json" where
  "py_key (JDict kvs) k = (case map_of kvs k of None \<Rightarrow> Inl KeyError | Some v \<Rightarrow> Inr v)"
| "py_key v k = Inl TypeError"

text \<open>
  \<^verbatim>\<open>x[i]\<close> with a non-negative integer literal \<open>i\<close>. A dictionary decoded from JSON
  has string keys only, so an integer key is never found.
\<close>

fun py_index :: "json \<Rightarrow> nat \<Rightarrow> py_error + json" where
  "py_index (JList xs) i = (if i < length xs then Inr (xs ! i) else Inl IndexError)"
| "py_index (JStr s) i = (if i < length s then Inr (JStr [s ! i]) else Inl IndexError)"
| "py_index (JDict kvs) i = Inl KeyError"
| "py_index v i = Inl TypeError"

text \<open>\<^verbatim>\<open>len(x)\<close>.\<close>

fun py_len :: "json \<Rightarrow> py_error + nat" where
  "py_len (JList xs) = Inr (length xs)"
| "py_len (JStr s) = Inr (length s)"
| "py_len (JDict kvs) = Inr (length kvs)"
| "py_len v = Inl TypeError"

text \<open>
  The items a \<^verbatim>\<open>for\<close> loop visits: the elements of a list, the keys of a
  dictionary, the characters of a string.
\<close>

fun py_iter :: "json \<Rightarrow> py_error + json list" where
  "py_iter (JList xs) = Inr xs"
| "py_iter (JDict kvs) = Inr (map (\<lambda>kv. JStr (fst kv)) kvs)"
| "py_iter (JStr s) = Inr (map (\<lambda>c. JStr [c]) s)"
| "py_iter v = Inl TypeError"

text \<open>\<^verbatim>\<open>s.startswith(p)\<close>, \<^verbatim>\<open>s.endswith(p)\<close> and the substring test on strings.\<close>

definition startswith :: "string \<Rightarrow> string \<Rightarrow> bool" where
  "startswith s p = (take (length p) s = p)"

definition endswith :: "string \<Rightarrow> string \<Rightarrow> bool" where
  "endswith s p = (length p \<le> length s \<and> drop (length s - length p) s = p)"

fun py_substr :: "string \<Rightarrow> string \<Rightarrow> bool" where
  "py_substr p [] = (p = [])"
| "py_substr p (c # cs) = (startswith (c # cs) p \<or> py_substr p cs)"

text \<open>
  \<^verbatim>\<open>k in x\<close> for a string \<open>k\<close>: a key of a dictionary, an element of a list, a
  substring of a string.
\<close>

fun py_str_in :: "string \<Rightarrow> json \<Rightarrow> py_error + bool" where
  "py_str_in k (JDict kvs) = Inr (map_of kvs k \<noteq> None)"
| "py_str_in k (JList xs) = Inr (JStr k \<in> set xs)"
| "py_str_in k (JStr s) = Inr (py_substr k s)"
| "py_str_in k v = Inl TypeError"

section \<open>The registrant extractor\<close>

text \<open>The dictionary \<^verbatim>\<open>extract_key_info\<close> returns, with its three keys.\<close>

record key_info =
  email_rdap :: json
  cpf_cnpj :: json
  name :: json

definition not_available :: json where
  "not_available = JStr ''Not available''"

text \<open>\<^verbatim>\<open>x if x else 'Not available'\<close>.\<close>

definition or_not_available :: "json \<Rightarrow> json" where
  "or_not_available v = (if truthy v then v else not_available)"

text \<open>\<^verbatim>\<open>entity.get('vcardArray', [[]])[1]\<close>.\<close>

definition vcard_of :: "json \<Rightarrow> py_error + json" where
  "vcard_of entity =
     ebind (py_get entity ''vcardArray'' (JList [JList []])) (\<lambda>va. py_index va 1)"

text \<open>
  \<^verbatim>\<open>vcard[1][3] if len(vcard) > 1 and len(vcard[1]) > 3 else 'Not available'\<close>.
\<close>

definition registrant_name :: "json \<Rightarrow> py_error + json" where
  "registrant_name vcard =
     ebind (py_len vcard) (\<lambda>n.
       if n > 1 then
         ebind (py_index vcard 1) (\<lambda>row.
         ebind (py_len row) (\<lambda>m.
           if m > 3 then py_index row 3 else Inr not_available))
       else Inr not_available)"

text \<open>
  The loop over \<^verbatim>\<open>publicIds\<close>: the variable \<^verbatim>\<open>cpf_cnpj\<close> is overwritten at
  every entry whose type is \<^verbatim>\<open>cpf\<close> or \<^verbatim>\<open>cnpj\<close>.
\<close>

fun scan_public_ids :: "json \<Rightarrow> json list \<Rightarrow> py_error + json" where
  "scan_public_ids cpf [] = Inr cpf"
| "scan_public_ids cpf (public_id # rest) =
     ebind (py_key public_id ''type'') (\<lambda>t.
       if t = JStr ''cpf'' \<or> t = JStr ''cnpj''
       then ebind (py_key public_id ''identifier'') (\<lambda>i. scan_public_ids i rest)
       else scan_public_ids cpf rest)"

text \<open>
  The loop over the rows of one card: the first row whose first element is
  \<^verbatim>\<open>email\<close> sets \<^verbatim>\<open>email_rdap\<close> and leaves the loop over this card.
\<close>

fun scan_vcard :: "json \<Rightarrow> json list \<Rightarrow> py_error + json" where
  "scan_vcard email [] = Inr email"
| "scan_vcard email (item # rest) =
     ebind (py_index item 0) (\<lambda>h.
       if h = JStr ''email'' then py_index item 3 else scan_vcard email rest)"

text \<open>The loop over the sub-entities of one entity.\<close>

fun scan_sub_entities :: "json \<Rightarrow> json list \<Rightarrow> py_error + json" where
  "scan_sub_entities email [] = Inr email"
| "scan_sub_entities email (sub_entity # rest) =
     ebind (vcard_of sub_entity) (\<lambda>vcard.
     ebind (py_iter vcard) (\<lambda>items.
     ebind (scan_vcard email items) (\<lambda>email'. scan_sub_entities email' rest)))"

text \<open>One round of the loop over the top-level entities.\<close>

definition is_registrant :: "json \<Rightarrow> py_error + bool" where
  "is_registrant entity =
     ebind (py_get entity ''roles'' (JList [])) (\<lambda>roles. py_str_in ''registrant'' roles)"

definition scan_registrant :: "key_info \<Rightarrow> json \<Rightarrow> py_error + key_info" where
  "scan_registrant st entity =
     ebind (vcard_of entity) (\<lambda>vcard.
     ebind (registrant_name vcard) (\<lambda>nm.
     ebind (py_get entity ''publicIds'' (JList [])) (\<lambda>pids.
     ebind (py_iter pids) (\<lambda>ids.
     ebind (scan_public_ids (cpf_cnpj st) ids) (\<lambda>cpf.
       Inr (st\<lparr>name := nm, cpf_cnpj := cpf\<rparr>))))))"

definition scan_entity :: "key_info \<Rightarrow> json \<Rightarrow> py_error + key_info" where
  "scan_entity st entity =
     ebind (is_registrant entity) (\<lambda>reg.
     ebind (if reg then scan_registrant st entity else Inr st) (\<lambda>st1.
     ebind (py_get entity ''entities'' (JList [])) (\<lambda>subs.
     ebind (py_iter subs) (\<lambda>sub_entities.
     ebind (scan_sub_entities (email_rdap st1) sub_entities) (\<lambda>email.
       Inr (st1\<lparr>email_rdap := email\<rparr>))))))"

fun scan_entities :: "key_info \<Rightarrow> json list \<Rightarrow> py_error + key_info" where
  "scan_entities st [] = Inr st"
| "scan_entities st (entity # rest) =
     ebind (scan_entity st entity) (\<lambda>st'. scan_entities st' rest)"

definition key_info_error :: key_info where
  "key_info_error =
     \<lparr>email_rdap = JStr ''Error'', cpf_cnpj = JStr ''Error'', name = JStr ''Error''\<rparr>"

definition key_info_none :: key_info where
  "key_info_none = \<lparr>email_rdap = JNull, cpf_cnpj = JNull, name = JNull\<rparr>"

definition with_defaults :: "key_info \<Rightarrow> key_info" where
  "with_defaults st =
     \<lparr>email_rdap = or_not_available (email_rdap st),
      cpf_cnpj = or_not_available (cpf_cnpj st),
      name = or_not_available (name st)\<rparr>"

definition extract_key_info :: "json \<Rightarrow> py_error + key_info" where
  "extract_key_info rdap_info =
     ebind (py_str_in ''error'' rdap_info) (\<lambda>err.
       if err then Inr key_info_error
       else
         ebind (py_get rdap_info ''entities'' (JList [])) (\<lambda>ents.
         ebind (py_iter ents) (\<lambda>entities.
         ebind (scan_entities key_info_none entities) (\<lambda>st.
           Inr (with_defaults st)))))"

section \<open>The domain normalizer\<close>

text \<open>
  \<^verbatim>\<open>str.strip()\<close> removes the characters for which \<^verbatim>\<open>str.isspace()\<close> holds, and
  \<^verbatim>\<open>str.lower()\<close> maps the upper-case letters to lower case. Both are given here
  for the characters with code points below 256.
\<close>

definition is_space :: "char \<Rightarrow> bool" where
  "is_space c =
     (let n = (of_char c :: nat)
      in (9 \<le> n \<and> n \<le> 13) \<or> (28 \<le> n \<and> n \<le> 32) \<or> n = 133 \<or> n = 160)"

definition strip :: "string \<Rightarrow> string" where
  "strip s = rev (dropWhile is_space (rev (dropWhile is_space s)))"

definition is_upper :: "char \<Rightarrow> bool" where
  "is_upper c =
     (let n = (of_char c :: nat)
      in (65 \<le> n \<and> n \<le> 90) \<or> (192 \<le> n \<and> n \<le> 222 \<and> n \<noteq> 215))"

text \<open>
  The lower-case letter is 32 code points above the upper-case one, which sets
  the bit of weight 32 (it is clear in every upper-case letter below 256).
\<close>

definition lower_char :: "char \<Rightarrow> char" where
  "lower_char c =
     (if is_upper c
      then (case c of Char b0 b1 b2 b3 b4 b5 b6 b7 \<Rightarrow> Char b0 b1 b2 b3 b4 True b6 b7)
      else c)"

definition lower :: "string \<Rightarrow> string" where
  "lower s = map lower_char s"

text \<open>\<^verbatim>\<open>re.sub(r'^https?://', '', domain)\<close>: the pattern matches at the start only.\<close>

definition strip_scheme :: "string \<Rightarrow> string" where
  "strip_scheme d =
     (if startswith d ''http://'' then drop 7 d
      else if startswith d ''https://'' then drop 8 d
      else d)"

text \<open>\<^verbatim>\<open>domain.rstrip('/')\<close>.\<close>

definition rstrip_slash :: "string \<Rightarrow> string" where
  "rstrip_slash d = rev (dropWhile (\<lambda>c. c = CHR ''/'') (rev d))"

text \<open>\<^verbatim>\<open>re.sub(r'^www\.', '', domain)\<close>.\<close>

definition strip_www :: "string \<Rightarrow> string" where
  "strip_www d = (if startswith d ''www.'' then drop 4 d else d)"

text \<open>
  \<^verbatim>\<open>urlparse('http://' + domain).netloc\<close>, after \<^verbatim>\<open>urlsplit\<close> of the standard
  library: tab, carriage return and line feed are removed from the URL, the
  network location is the text after \<^verbatim>\<open>//\<close> up to the first \<^verbatim>\<open>/\<close>, \<^verbatim>\<open>?\<close> or
  \<^verbatim>\<open>#\<close>, and a location with only one of the two square brackets is refused with
  \<^verbatim>\<open>ValueError\<close>. The further checks that recent versions of the library make on
  a location with both brackets are not part of this model.
\<close>

definition netloc :: "string \<Rightarrow> py_error + string" where
  "netloc domain =
     (let url = filter (\<lambda>c. c \<notin> set [CHR 0x09, CHR 0x0D, CHR 0x0A]) domain;
          loc = takeWhile (\<lambda>c. c \<notin> set ''/?#'') url
      in if (CHR ''['' \<in> set loc) \<noteq> (CHR '']'' \<in> set loc)
         then Inl ValueError else Inr loc)"

text \<open>\<^verbatim>\<open>s.split('.')\<close> and \<^verbatim>\<open>'.'.join(parts)\<close>.\<close>

fun split_dot :: "string \<Rightarrow> string list" where
  "split_dot [] = [[]]"
| "split_dot (c # cs) =
     (if c = CHR ''.'' then [] # split_dot cs
      else (case split_dot cs of [] \<Rightarrow> [[c]] | p # ps \<Rightarrow> (c # p) # ps))"

fun join_dot :: "string list \<Rightarrow> string" where
  "join_dot [] = []"
| "join_dot [p] = p"
| "join_dot (p # q # ps) = p @ ''.'' @ join_dot (q # ps)"

text \<open>The body of the loop of \<^verbatim>\<open>clean_domains\<close>, up to the test of the suffix.\<close>

definition clean_domain :: "string \<Rightarrow> py_error + string" where
  "clean_domain domain =
     ebind (netloc (strip_www (rstrip_slash (strip_scheme (lower (strip domain)))))) (\<lambda>loc.
       let domain_parts = split_dot loc
       in if length domain_parts > 2
          then Inr (join_dot (drop (length domain_parts - 3) domain_parts))
          else Inr (join_dot domain_parts))"

fun clean_loop :: "string list \<Rightarrow> string list \<Rightarrow> py_error + string list" where
  "clean_loop cleaned_domains [] = Inr cleaned_domains"
| "clean_loop cleaned_domains (domain # rest) =
     ebind (clean_domain domain) (\<lambda>d.
       if endswith d ''.br'' then clean_loop (cleaned_domains @ [d]) rest
       else clean_loop cleaned_domains rest)"

definition clean_domains :: "string list \<Rightarrow> py_error + string list" where
  "clean_domains domains = clean_loop [] domains"

section \<open>The identifier sanitizer and the company record formatter\<close>

text \<open>
  \<^verbatim>\<open>re.sub(r'\D', '', cnpj)\<close>: the argument has to be a string; among the characters
  below 256 the digits are \<open>0\<close> to \<open>9\<close>.
\<close>

definition is_digit :: "char \<Rightarrow> bool" where
  "is_digit c = (c \<in> set ''0123456789'')"

fun sanitize_cnpj :: "json \<Rightarrow> py_error + string" where
  "sanitize_cnpj (JStr s) = Inr (filter is_digit s)"
| "sanitize_cnpj v = Inl TypeError"

text \<open>Several \<^verbatim>\<open>obj.get(k, d)\<close> in a row, collected under their keys.\<close>

fun py_gets :: "json \<Rightarrow> (string \<times> json) list \<Rightarrow> py_error + (string \<times> json) list" where
  "py_gets obj [] = Inr []"
| "py_gets obj ((k, d) # rest) =
     ebind (py_get obj k d) (\<lambda>v.
     ebind (py_gets obj rest) (\<lambda>vs. Inr ((k, v) # vs)))"

definition format_cnpj_info :: "json \<Rightarrow> py_error + json" where
  "format_cnpj_info info =
     ebind (py_gets info
        [(''nome'', not_available), (''fantasia'', not_available),
         (''logradouro'', not_available), (''numero'', not_available),
         (''bairro'', not_available), (''municipio'', not_available),
         (''uf'', not_available), (''cep'', not_available),
         (''telefone'', not_available), (''situacao'', not_available),
         (''capital_social'', not_available), (''email'', not_available),
         (''qsa'', JList [])])
       (\<lambda>kvs. Inr (JDict kvs))"

section \<open>The world of the script: files, services, clock and log\<close>

text \<open>
  A row of the output table: its key and the thirteen other columns. The table is
  the content of \<^verbatim>\<open>informacoes_empresa.csv\<close> as \<^verbatim>\<open>pd.read_csv\<close> returns it; writing
  and reading the file back keeps the column \<^verbatim>\<open>Domain\<close> as it is.
\<close>

record row =
  Domain :: string
  columns :: "(string \<times> json) list"

datatype level = INFO | WARNING | ERROR

text \<open>One constructor for each call of \<^verbatim>\<open>logging\<close> in the script.\<close>

datatype message =
    Erro_consulta_RDAP string string
  | Erro_consulta_CNPJ string string
  | Ja_esta_na_planilha string
  | Salvas_com_sucesso string
  | Erro_ao_ler_CSV
  | Processando string
  | Dados_RDAP_recuperados string
  | Informacoes_salvas string
  | Informacoes_nao_salvas string
  | Erro_ReceitaWS string json
  | Nao_e_CNPJ_valido string
  | CNPJ_nao_encontrado string
  | Erro_RDAP string json
  | Aplicando_atraso nat nat

datatype event =
    Log level message
  | HttpGet string
  | Sleep real
  | ToCsv "row list"

text \<open>
  What the script does not decide: the answer of \<^verbatim>\<open>requests.get\<close> to a URL (the
  decoded body, or \<open>Inl\<close> the text of the \<^verbatim>\<open>RequestException\<close>), the time the
  request takes, the text \<^verbatim>\<open>str()\<close> gives for a value that is not a string, and
  the rows of \<^verbatim>\<open>dominios.csv\<close> (\<open>None\<close>: the file cannot be read).
\<close>

record env =
  http_get :: "string \<Rightarrow> string + json"
  http_secs :: "string \<Rightarrow> real"
  py_repr :: "json \<Rightarrow> string"
  dominios_csv :: "string list list option"

text \<open>
  What the script changes: the output file (\<open>None\<close>: no such file), the global
  counter, the clock, and the trace of what it did. \<open>raised\<close> holds the exception
  that ended the run, if one did.
\<close>

record state =
  informacoes_empresa_csv :: "row list option"
  CONTADOR_SUCESSO :: nat
  clock :: real
  events :: "event list"
  raised :: "py_error option"

definition ATRASO_BASE :: real where
  "ATRASO_BASE = 60"

definition ATRASO_PERSONALIZADO :: nat where
  "ATRASO_PERSONALIZADO = 5"

definition emit :: "event \<Rightarrow> state \<Rightarrow> state" where
  "emit e st = st\<lparr>events := events st @ [e]\<rparr>"

definition logging :: "level \<Rightarrow> message \<Rightarrow> state \<Rightarrow> state" where
  "logging l m st = emit (Log l m) st"

text \<open>\<^verbatim>\<open>time.sleep(d)\<close>: the clock advances by \<open>d\<close>.\<close>

definition sleep :: "real \<Rightarrow> state \<Rightarrow> state" where
  "sleep d st = (emit (Sleep d) st)\<lparr>clock := clock st + d\<rparr>"

definition raise :: "py_error \<Rightarrow> state \<Rightarrow> state" where
  "raise e st = st\<lparr>raised := Some e\<rparr>"

text \<open>The request of both clients; the clock advances by the time it takes.\<close>

definition request :: "env \<Rightarrow> string \<Rightarrow> state \<Rightarrow> state" where
  "request env url st = (emit (HttpGet url) st)\<lparr>clock := clock st + http_secs env url\<rparr>"

definition rdap_url :: "string \<Rightarrow> string" where
  "rdap_url dominio = ''https://rdap.registro.br/domain/'' @ dominio"

definition cnpj_url :: "string \<Rightarrow> string" where
  "cnpj_url cnpj = ''https://receitaws.com.br/v1/cnpj/'' @ cnpj"

definition consulta_rdap :: "env \<Rightarrow> string \<Rightarrow> state \<Rightarrow> json \<times> state" where
  "consulta_rdap env dominio st =
     (let url = rdap_url dominio; st1 = request env url st
      in case http_get env url of
           Inr body \<Rightarrow> (body, st1)
         | Inl e \<Rightarrow> (JDict [(''error'', JStr e)],
                     logging ERROR (Erro_consulta_RDAP dominio e) st1))"

definition consulta_cnpj :: "env \<Rightarrow> string \<Rightarrow> state \<Rightarrow> json \<times> state" where
  "consulta_cnpj env cnpj st =
     (let url = cnpj_url cnpj; st1 = request env url st
      in case http_get env url of
           Inr body \<Rightarrow> (body, st1)
         | Inl e \<Rightarrow> (JDict [(''error'', JStr e)],
                     logging ERROR (Erro_consulta_CNPJ cnpj e) st1))"

section \<open>The enrichment store\<close>

text \<open>A value inside an f-string: a string stands for itself.\<close>

fun py_str :: "env \<Rightarrow> json \<Rightarrow> string" where
  "py_str env (JStr s) = s"
| "py_str env v = py_repr env v"

text \<open>
  \<^verbatim>\<open>qsa[i].get(k, 'Not available') if len(qsa) > i else 'Not available'\<close>.
\<close>

definition partner :: "json \<Rightarrow> nat \<Rightarrow> string \<Rightarrow> py_error + json" where
  "partner qsa i k =
     ebind (py_len qsa) (\<lambda>n.
       if n > i then ebind (py_index qsa i) (\<lambda>p. py_get p k not_available)
       else Inr not_available)"

definition full_address :: "env \<Rightarrow> (string \<times> json) list \<Rightarrow> string" where
  "full_address env a =
     py_str env (snd (a ! 0)) @ '', '' @ py_str env (snd (a ! 1)) @ '', '' @
     py_str env (snd (a ! 2)) @ '', '' @ py_str env (snd (a ! 3)) @ '', '' @
     py_str env (snd (a ! 4))"

definition new_row :: "env \<Rightarrow> string \<Rightarrow> key_info \<Rightarrow> json \<Rightarrow> json \<Rightarrow> py_error + row" where
  "new_row env dominio rdap_info cnpj_info qsa =
     ebind (py_gets cnpj_info [(''nome'', not_available), (''fantasia'', not_available)]) (\<lambda>names.
     ebind (py_gets cnpj_info
        [(''logradouro'', not_available), (''numero'', not_available),
         (''bairro'', not_available), (''municipio'', not_available),
         (''uf'', not_available)]) (\<lambda>address.
     ebind (py_gets cnpj_info
        [(''cep'', not_available), (''telefone'', not_available),
         (''situacao'', not_available), (''capital_social'', not_available)]) (\<lambda>others.
     ebind (partner qsa 0 ''nome'') (\<lambda>p1n.
     ebind (partner qsa 0 ''qual'') (\<lambda>p1q.
     ebind (partner qsa 1 ''nome'') (\<lambda>p2n.
     ebind (partner qsa 1 ''qual'') (\<lambda>p2q.
     ebind (py_get cnpj_info ''email'' not_available) (\<lambda>email.
       Inr \<lparr>Domain = dominio,
            columns =
              [(''Registration Name'', snd (names ! 0)),
               (''Trade Name'', snd (names ! 1)),
               (''Full Address'', JStr (full_address env address)),
               (''CEP'', snd (others ! 0)),
               (''Phone'', snd (others ! 1)),
               (''Status'', snd (others ! 2)),
               (''Social Capital'', snd (others ! 3)),
               (''Partner 1 Name'', p1n),
               (''Partner 1 Qualification'', p1q),
               (''Partner 2 Name'', p2n),
               (''Partner 2 Qualification'', p2q),
               (''RDAP Email'', email_rdap rdap_info),
               (''ReceitaWS Email'', email)]\<rparr>))))))))"

text \<open>
  \<^verbatim>\<open>pd.read_csv(filename)\<close>, with the empty frame of the handler of
  \<^verbatim>\<open>FileNotFoundError\<close>.
\<close>

definition read_table :: "state \<Rightarrow> row list" where
  "read_table st = (case informacoes_empresa_csv st of None \<Rightarrow> [] | Some rows \<Rightarrow> rows)"

definition save_to_csv :: "env \<Rightarrow> string \<Rightarrow> key_info \<Rightarrow> json \<Rightarrow> state \<Rightarrow> py_error + bool \<times> state" where
  "save_to_csv env dominio rdap_info cnpj_info st =
     (let df = read_table st
      in if dominio \<in> set (map Domain df)
         then Inr (False, logging INFO (Ja_esta_na_planilha dominio) st)
         else
           ebind (py_get cnpj_info ''qsa'' (JList [])) (\<lambda>qsa.
           ebind (new_row env dominio rdap_info cnpj_info qsa) (\<lambda>r.
             let df' = df @ [r];
                 st1 = (emit (ToCsv df') st)\<lparr>informacoes_empresa_csv := Some df'\<rparr>;
                 st2 = logging INFO (Salvas_com_sucesso dominio) st1
             in Inr (True, st2\<lparr>CONTADOR_SUCESSO := CONTADOR_SUCESSO st2 + 1\<rparr>))))"

section \<open>The pipeline orchestrator\<close>

text \<open>
  \<^verbatim>\<open>isinstance(x, dict) and 'error' not in x\<close>, the test both answers go through.
\<close>

definition dict_without_error :: "json \<Rightarrow> bool" where
  "dict_without_error x = (is_dict x \<and> py_str_in ''error'' x = Inr False)"

text \<open>
  The logging of an answer that is not accepted:
  \<^verbatim>\<open>x.get('error', 'Erro desconhecido')\<close> needs a dictionary.
\<close>

definition log_error_of :: "(json \<Rightarrow> message) \<Rightarrow> json \<Rightarrow> state \<Rightarrow> state" where
  "log_error_of m x st =
     (case py_get x ''error'' (JStr ''Erro desconhecido'') of
        Inl e \<Rightarrow> raise e st
      | Inr v \<Rightarrow> logging ERROR (m v) st)"

text \<open>The branch with a company identifier of 14 digits.\<close>

definition lookup_and_store :: "env \<Rightarrow> string \<Rightarrow> key_info \<Rightarrow> string \<Rightarrow> state \<Rightarrow> state" where
  "lookup_and_store env dominio key_info cnpj_sanitizado st =
     (case consulta_cnpj env cnpj_sanitizado st of (receita_info, st1) \<Rightarrow>
        let st2 = sleep 10 st1
        in if dict_without_error receita_info then
             (case format_cnpj_info receita_info of
                Inl e \<Rightarrow> raise e st2
              | Inr formatted_info \<Rightarrow>
                  (case save_to_csv env dominio key_info formatted_info st2 of
                     Inl e \<Rightarrow> raise e st2
                   | Inr (saved, st3) \<Rightarrow>
                       if saved then logging INFO (Informacoes_salvas dominio) st3
                       else logging INFO (Informacoes_nao_salvas dominio) st3))
           else log_error_of (Erro_ReceitaWS dominio) receita_info st2)"

text \<open>What the loop does with the answer of the registry.\<close>

definition enrich :: "env \<Rightarrow> string \<Rightarrow> json \<Rightarrow> state \<Rightarrow> state" where
  "enrich env dominio rdap_resultado st =
     (if dict_without_error rdap_resultado then
        (case extract_key_info rdap_resultado of
           Inl e \<Rightarrow> raise e st
         | Inr key_info \<Rightarrow>
             let st1 = logging INFO (Dados_RDAP_recuperados dominio) st
             in if truthy (cpf_cnpj key_info) then
                  (case sanitize_cnpj (cpf_cnpj key_info) of
                     Inl e \<Rightarrow> raise e st1
                   | Inr cnpj_sanitizado \<Rightarrow>
                       if length cnpj_sanitizado = 14
                       then lookup_and_store env dominio key_info cnpj_sanitizado st1
                       else logging WARNING (Nao_e_CNPJ_valido dominio) st1)
                else logging WARNING (CNPJ_nao_encontrado dominio) st1)
      else log_error_of (Erro_RDAP dominio) rdap_resultado st)"

text \<open>
  The processing of one domain, from \<^verbatim>\<open>inicio_processamento = time.time()\<close> to
  the end of the \<^verbatim>\<open>if\<close> on the answer of the registry.
\<close>

definition process :: "env \<Rightarrow> string \<Rightarrow> state \<Rightarrow> state" where
  "process env dominio st =
     (let st1 = logging INFO (Processando dominio) st
      in case consulta_rdap env dominio st1 of (rdap_resultado, st2) \<Rightarrow>
           enrich env dominio rdap_resultado (sleep 10 st2))"

text \<open>The wait that completes one minute.\<close>

definition floor_sleep :: "real \<Rightarrow> state \<Rightarrow> state" where
  "floor_sleep inicio_processamento st =
     (let tempo_processamento = clock st - inicio_processamento;
          tempo_espera = max 0 (ATRASO_BASE - tempo_processamento)
      in sleep tempo_espera st)"

text \<open>The wait of five minutes.\<close>

definition extended_pause :: "state \<Rightarrow> state" where
  "extended_pause st =
     (if CONTADOR_SUCESSO st > 0 \<and> CONTADOR_SUCESSO st mod 5 = 0
      then sleep (real (ATRASO_PERSONALIZADO * 60))
             (logging INFO (Aplicando_atraso ATRASO_PERSONALIZADO (CONTADOR_SUCESSO st)) st)
      else st)"

text \<open>One round of the loop of \<^verbatim>\<open>main\<close>.\<close>

definition loop_body :: "env \<Rightarrow> string set \<Rightarrow> string \<Rightarrow> state \<Rightarrow> state" where
  "loop_body env dominios_existentes dominio st =
     (if dominio \<in> dominios_existentes
      then logging INFO (Ja_esta_na_planilha dominio) st
      else
        let inicio_processamento = clock st;
            st1 = process env dominio st
        in if raised st1 \<noteq> None then st1
           else extended_pause (floor_sleep inicio_processamento st1))"

fun main_loop :: "env \<Rightarrow> string set \<Rightarrow> string list \<Rightarrow> state \<Rightarrow> state" where
  "main_loop env dominios_existentes [] st = st"
| "main_loop env dominios_existentes (dominio # rest) st =
     (let st1 = loop_body env dominios_existentes dominio st
      in if raised st1 \<noteq> None then st1
         else main_loop env dominios_existentes rest st1)"

text \<open>
  The reading of the input file: the first row is skipped (an empty file fails
  there), the first cell of every other non-empty row is a domain.
\<close>

fun read_domains :: "string list list option \<Rightarrow> string list option" where
  "read_domains None = None"
| "read_domains (Some []) = None"
| "read_domains (Some (header # rows)) = Some (map hd (filter (\<lambda>r. r \<noteq> []) rows))"

definition main :: "env \<Rightarrow> state \<Rightarrow> state" where
  "main env st =
     (case read_domains (dominios_csv env) of
        None \<Rightarrow> logging ERROR Erro_ao_ler_CSV st
      | Some domains \<Rightarrow>
          (case clean_domains domains of
             Inl e \<Rightarrow> raise e st
           | Inr cleaned_domains \<Rightarrow>
               main_loop env (set (map Domain (read_table st))) cleaned_domains st))"

text \<open>The state in which the script starts, given the output file.\<close>

definition start :: "row list option \<Rightarrow> state" where
  "start file =
     \<lparr>informacoes_empresa_csv = file, CONTADOR_SUCESSO = 0, clock = 0, events = [],
      raised = None\<rparr>"

section \<open>What the specification says the extractor finds\<close>

text \<open>
  The specification describes the result of the extractor by the entries of the
  record, in document order. The functions of this section list those entries;
  they read the record with the accessors of the extractor and take a part that
  cannot be read as empty, so that they are defined on every record.
\<close>

definition items_of :: "py_error + json \<Rightarrow> json list" where
  "items_of x = (case ebind x py_iter of Inl e \<Rightarrow> [] | Inr xs \<Rightarrow> xs)"

definition value_of :: "py_error + json \<Rightarrow> json" where
  "value_of x = (case x of Inl e \<Rightarrow> JNull | Inr v \<Rightarrow> v)"

definition last_or :: "'a \<Rightarrow> 'a list \<Rightarrow> 'a" where
  "last_or d xs = (if xs = [] then d else last xs)"

text \<open>The entities of a record, and the sub-entities of an entity.\<close>

definition entities_of :: "json \<Rightarrow> json list" where
  "entities_of x = items_of (py_get x ''entities'' (JList []))"

definition public_ids_of :: "json \<Rightarrow> json list" where
  "public_ids_of entity = items_of (py_get entity ''publicIds'' (JList []))"

definition card_rows_of :: "json \<Rightarrow> json list" where
  "card_rows_of entity = items_of (vcard_of entity)"

text \<open>A row of a card whose first element is \<^verbatim>\<open>email\<close>, and its fourth element.\<close>

definition is_email_row :: "json \<Rightarrow> bool" where
  "is_email_row item = (py_index item 0 = Inr (JStr ''email''))"

definition card_email :: "json list \<Rightarrow> json option" where
  "card_email rows =
     (case filter is_email_row rows of
        [] \<Rightarrow> None
      | item # later \<Rightarrow> Some (value_of (py_index item 3)))"

text \<open>
  For every sub-entity of an entity, in document order, the email of the first
  email row of its card, when the card has one; then the same along the entities
  of the record.
\<close>

definition entity_emails :: "json \<Rightarrow> json list" where
  "entity_emails entity =
     List.map_filter (\<lambda>sub_entity. card_email (card_rows_of sub_entity)) (entities_of entity)"

definition emails_found :: "json \<Rightarrow> json list" where
  "emails_found rdap_info = concat (map entity_emails (entities_of rdap_info))"

text \<open>
  An entity has the role \<^verbatim>\<open>registrant\<close> when its role list holds that name. Where
  the value under \<^verbatim>\<open>roles\<close> is a dictionary or a text instead of a list, the names
  it holds are its keys, or the parts of the text; an entity without \<^verbatim>\<open>roles\<close> has
  no role.
\<close>

fun holds_registrant :: "json \<Rightarrow> bool" where
  "holds_registrant (JList roles) = (JStr ''registrant'' \<in> set roles)"
| "holds_registrant (JDict kvs) = (''registrant'' \<in> fst ` set kvs)"
| "holds_registrant (JStr s) = py_substr ''registrant'' s"
| "holds_registrant v = False"

definition has_registrant_role :: "json \<Rightarrow> bool" where
  "has_registrant_role entity =
     (case entity of
        JDict kvs \<Rightarrow>
          (case map_of kvs ''roles'' of None \<Rightarrow> False | Some roles \<Rightarrow> holds_registrant roles)
      | v \<Rightarrow> False)"

text \<open>
  For an entity with the role \<^verbatim>\<open>registrant\<close>, the identifiers of its public
  identifiers of type \<^verbatim>\<open>cpf\<close> or \<^verbatim>\<open>cnpj\<close>, in document order, and none for any
  other entity; then the same along the entities of the record.
\<close>

definition is_tax_id :: "json \<Rightarrow> bool" where
  "is_tax_id public_id =
     (py_key public_id ''type'' = Inr (JStr ''cpf'') \<or>
      py_key public_id ''type'' = Inr (JStr ''cnpj''))"

definition entity_tax_ids :: "json \<Rightarrow> json list" where
  "entity_tax_ids entity =
     (if has_registrant_role entity
      then map (\<lambda>public_id. value_of (py_key public_id ''identifier''))
               (filter is_tax_id (public_ids_of entity))
      else [])"

definition tax_ids_found :: "json \<Rightarrow> json list" where
  "tax_ids_found rdap_info = concat (map entity_tax_ids (entities_of rdap_info))"

section \<open>Reading a trace\<close>

text \<open>The events a part of the script added to the trace.\<close>

definition new_events :: "state \<Rightarrow> state \<Rightarrow> event list" where
  "new_events st st' = drop (length (events st)) (events st')"

text \<open>The time an event takes, the writes of the table and the waits of a trace.\<close>

fun secs :: "env \<Rightarrow> event \<Rightarrow> real" where
  "secs env (Sleep d) = d"
| "secs env (HttpGet url) = http_secs env url"
| "secs env e = 0"

fun is_write :: "event \<Rightarrow> bool" where
  "is_write (ToCsv df) = True"
| "is_write e = False"

definition writes :: "event list \<Rightarrow> nat" where
  "writes evs = length (filter is_write evs)"

fun sleeps :: "event list \<Rightarrow> real list" where
  "sleeps [] = []"
| "sleeps (Sleep d # evs) = d # sleeps evs"
| "sleeps (e # evs) = sleeps evs"

text \<open>One run of the script on an output file: the file it leaves.\<close>

definition run :: "env \<Rightarrow> row list option \<Rightarrow> row list option" where
  "run env file = informacoes_empresa_csv (main env (start file))"

section \<open>Example answers of the two services\<close>

text \<open>A registry record whose registrant has an individual and a company identifier.\<close>

definition rdap_two_ids :: json where
  "rdap_two_ids =
     JDict [(''entities'', JList
       [JDict [(''roles'', JList [JStr ''registrant'']),
               (''vcardArray'', JList [JStr ''vcard'',
                  JList [JList [JStr ''version'', JDict [], JStr ''text'', JStr ''4.0''],
                         JList [JStr ''fn'', JDict [], JStr ''text'', JStr ''ACME'']]]),
               (''publicIds'', JList
                  [JDict [(''type'', JStr ''cpf''), (''identifier'', JStr ''123.456.789-09'')],
                   JDict [(''type'', JStr ''other''), (''identifier'', JStr ''7'')],
                   JDict [(''type'', JStr ''cnpj''),
                          (''identifier'', JStr ''12.345.678/0001-99'')]])]])]"

text \<open>
  A registry record with three entities: a technical contact, the registrant and
  an administrative contact, each with public identifiers of its own.
\<close>

definition rdap_three_entities :: json where
  "rdap_three_entities =
     JDict [(''entities'', JList
       [JDict [(''roles'', JList [JStr ''technical'']),
               (''publicIds'', JList
                  [JDict [(''type'', JStr ''cnpj''),
                          (''identifier'', JStr ''11.111.111/0001-11'')]])],
        JDict [(''roles'', JList [JStr ''billing'', JStr ''registrant'']),
               (''vcardArray'', JList [JStr ''vcard'',
                  JList [JList [JStr ''version'', JDict [], JStr ''text'', JStr ''4.0''],
                         JList [JStr ''fn'', JDict [], JStr ''text'', JStr ''ACME'']]]),
               (''publicIds'', JList
                  [JDict [(''type'', JStr ''cnpj''),
                          (''identifier'', JStr ''22.222.222/0001-22'')],
                   JDict [(''type'', JStr ''cpf''), (''identifier'', JStr ''123.456.789-09'')],
                   JDict [(''type'', JStr ''passport''), (''identifier'', JStr ''X1'')]])],
        JDict [(''roles'', JList [JStr ''administrative'']),
               (''publicIds'', JList
                  [JDict [(''type'', JStr ''cnpj''),
                          (''identifier'', JStr ''33.333.333/0001-33'')]])]])]"

text \<open>A registry record whose entity has two contacts, each with an email.\<close>

definition rdap_two_emails :: json where
  "rdap_two_emails =
     JDict [(''entities'', JList
       [JDict [(''roles'', JList [JStr ''registrant'']),
               (''vcardArray'', JList [JStr ''vcard'', JList []]),
               (''entities'', JList
                  [JDict [(''vcardArray'', JList [JStr ''vcard'',
                     JList [JList [JStr ''email'', JDict [], JStr ''text'', JStr ''first@a.br''],
                            JList [JStr ''email'', JDict [], JStr ''text'', JStr ''other@a.br'']]])],
                   JDict [(''vcardArray'', JList [JStr ''vcard'',
                     JList [JList [JStr ''fn'', JDict [], JStr ''text'', JStr ''Contact''],
                            JList [JStr ''email'', JDict [], JStr ''text'', JStr ''second@b.br'']]])]])]])]"

text \<open>A record with an individual identifier (11 digits) only.\<close>

definition rdap_cpf :: json where
  "rdap_cpf =
     JDict [(''entities'', JList
       [JDict [(''roles'', JList [JStr ''registrant'']),
               (''vcardArray'', JList [JStr ''vcard'', JList []]),
               (''publicIds'', JList
                  [JDict [(''type'', JStr ''cpf''),
                          (''identifier'', JStr ''123.456.789-09'')]])]])]"

text \<open>An answer of the company registry and a world in which every request succeeds at once.\<close>

definition receita_acme :: json where
  "receita_acme = JDict [(''nome'', JStr ''ACME LTDA''), (''qsa'', JList [])]"

definition answer_ok :: "string \<Rightarrow> string + json" where
  "answer_ok url =
     (if startswith url ''https://rdap.registro.br/'' then Inr rdap_two_ids
      else Inr receita_acme)"

text \<open>The same world, in which the registry does not know the domain \<^verbatim>\<open>f.br\<close>.\<close>

definition answer_but_f :: "string \<Rightarrow> string + json" where
  "answer_but_f url =
     (if url = ''https://rdap.registro.br/domain/f.br'' then Inl ''404 Client Error''
      else answer_ok url)"

definition no_time :: "string \<Rightarrow> real" where
  "no_time url = 0"

definition no_repr :: "json \<Rightarrow> string" where
  "no_repr v = ''?''"

definition world_six :: env where
  "world_six =
     \<lparr>http_get = answer_but_f, http_secs = no_time, py_repr = no_repr,
      dominios_csv = Some [[''dominio''], [''a.br''], [''b.br''], [''c.br''], [''d.br''],
                           [''e.br''], [''f.br'']]\<rparr>"

section \<open>Relating two states of a run\<close>

text \<open>
  The later state extends the earlier one: its trace continues the earlier trace,
  its clock has advanced by the time the new events take, and its counter by the
  number of writes among them.
\<close>

definition extends :: "env \<Rightarrow> state \<Rightarrow> state \<Rightarrow> bool" where
  "extends env st st' =
     (events st' = events st @ new_events st st' \<and>
      clock st' = clock st + sum_list (map (secs env) (new_events st st')) \<and>
      CONTADOR_SUCESSO st' = CONTADOR_SUCESSO st + writes (new_events st st'))"

text \<open>The keys of the output table.\<close>

definition stored_domains :: "state \<Rightarrow> string list" where
  "stored_domains st = map Domain (read_table st)"

section \<open>Example runs\<close>

text \<open>What the examples below observe of a state.\<close>

definition summary :: "state \<Rightarrow> real list \<times> nat \<times> nat \<times> string list \<times> py_error option" where
  "summary st =
     (sleeps (events st), writes (events st), CONTADOR_SUCESSO st, stored_domains st, raised st)"

text \<open>A table that holds the domain \<^verbatim>\<open>a.br\<close>, and a world whose input list names it.\<close>

definition table_a :: "row list option" where
  "table_a = Some [\<lparr>Domain = ''a.br'', columns = []\<rparr>]"

definition world_a :: env where
  "world_a =
     \<lparr>http_get = answer_ok, http_secs = no_time, py_repr = no_repr,
      dominios_csv = Some [[''dominio''], [''http://www.a.br/'']]\<rparr>"

text \<open>The state of the example world after its first four domains.\<close>

definition four_stored :: state where
  "four_stored = main_loop world_six {} [''a.br'', ''b.br'', ''c.br'', ''d.br''] (start None)"

section \<open>What the specification says the normalizer keeps\<close>




section \<open>Properties of the registrant extractor\<close>

lemma ebind_Inr: "ebind x f = Inr y \<Longrightarrow> \<exists>v. x = Inr v \<and> f v = Inr y"
  by (cases x) auto

lemma last_or_Nil: "last_or d [] = d"
  by (simp add: last_or_def)

lemma last_or_Cons: "last_or d (x # xs) = last_or x xs"
  by (simp add: last_or_def)

lemma last_or_append: "last_or (last_or d xs) ys = last_or d (xs @ ys)"
  by (simp add: last_or_def)

text \<open>The loop over one card returns the email of the first email row, if any.\<close>

lemma scan_vcard_spec:
  "scan_vcard e rows = Inr e' \<Longrightarrow> e' = (case card_email rows of None \<Rightarrow> e | Some v \<Rightarrow> v)"
proof (induction rows)
  case Nil
  then show ?case by (simp add: card_email_def)
next
  case (Cons item rest)
  from Cons.prems obtain h where h: "py_index item 0 = Inr h"
    and k: "(if h = JStr ''email'' then py_index item 3 else scan_vcard e rest) = Inr e'"
    by (auto dest: ebind_Inr)
  show ?case
  proof (cases "h = JStr ''email''")
    case True
    with h k show ?thesis by (simp add: card_email_def is_email_row_def value_of_def)
  next
    case False
    with k have "scan_vcard e rest = Inr e'" by simp
    from Cons.IH [OF this] False h show ?thesis
      by (simp add: card_email_def is_email_row_def)
  qed
qed

text \<open>Every later card with an email row overwrites what an earlier card gave.\<close>

lemma scan_sub_entities_spec:
  "scan_sub_entities e subs = Inr e' \<Longrightarrow>
   e' = last_or e (List.map_filter (\<lambda>s. card_email (card_rows_of s)) subs)"
proof (induction subs arbitrary: e)
  case Nil
  then show ?case by (simp add: last_or_Nil List.map_filter_simps)
next
  case (Cons s rest)
  from Cons.prems obtain vcard items e1 where v: "vcard_of s = Inr vcard"
    and i: "py_iter vcard = Inr items" and s1: "scan_vcard e items = Inr e1"
    and r: "scan_sub_entities e1 rest = Inr e'"
    by (auto dest!: ebind_Inr)
  have rows: "card_rows_of s = items"
    using v i by (simp add: card_rows_of_def items_of_def)
  from scan_vcard_spec [OF s1] Cons.IH [OF r] rows show ?case
    by (simp add: List.map_filter_simps last_or_Cons split: option.splits)
qed

lemma scan_public_ids_spec:
  "scan_public_ids c ids = Inr c' \<Longrightarrow>
   c' = last_or c (map (\<lambda>p. value_of (py_key p ''identifier'')) (filter is_tax_id ids))"
proof (induction ids arbitrary: c)
  case Nil
  then show ?case by (simp add: last_or_Nil)
next
  case (Cons p rest)
  from Cons.prems obtain t where t: "py_key p ''type'' = Inr t"
    and k: "(if t = JStr ''cpf'' \<or> t = JStr ''cnpj''
             then ebind (py_key p ''identifier'') (\<lambda>i. scan_public_ids i rest)
             else scan_public_ids c rest) = Inr c'"
    by (auto dest: ebind_Inr)
  show ?case
  proof (cases "t = JStr ''cpf'' \<or> t = JStr ''cnpj''")
    case True
    with k obtain i where i: "py_key p ''identifier'' = Inr i"
      and r: "scan_public_ids i rest = Inr c'"
      by (auto dest: ebind_Inr)
    from True t have "is_tax_id p" by (auto simp: is_tax_id_def)
    with Cons.IH [OF r] i show ?thesis
      by (simp add: last_or_Cons value_of_def)
  next
    case False
    with k have r: "scan_public_ids c rest = Inr c'" by simp
    from False t have "\<not> is_tax_id p" by (auto simp: is_tax_id_def)
    with Cons.IH [OF r] show ?thesis by simp
  qed
qed

lemma scan_registrant_spec:
  assumes "scan_registrant st entity = Inr st'"
  shows "email_rdap st' = email_rdap st"
    and "cpf_cnpj st' = last_or (cpf_cnpj st)
           (map (\<lambda>p. value_of (py_key p ''identifier'')) (filter is_tax_id (public_ids_of entity)))"
proof -
  from assms obtain nm pids ids cpf where p: "py_get entity ''publicIds'' (JList []) = Inr pids"
    and i: "py_iter pids = Inr ids" and s: "scan_public_ids (cpf_cnpj st) ids = Inr cpf"
    and st': "st' = st\<lparr>name := nm, cpf_cnpj := cpf\<rparr>"
    unfolding scan_registrant_def by (auto dest!: ebind_Inr)
  show "email_rdap st' = email_rdap st" using st' by simp
  have "public_ids_of entity = ids" using p i by (simp add: public_ids_of_def items_of_def)
  with scan_public_ids_spec [OF s] st'
  show "cpf_cnpj st' = last_or (cpf_cnpj st)
           (map (\<lambda>p. value_of (py_key p ''identifier'')) (filter is_tax_id (public_ids_of entity)))"
    by simp
qed

text \<open>The test of the role made by the extractor agrees with the role list.\<close>

lemma is_registrant_role_list:
  assumes "is_registrant entity = Inr reg"
  shows "reg = has_registrant_role entity"
proof (cases entity)
  case (JDict kvs)
  show ?thesis
  proof (cases "map_of kvs ''roles''")
    case None
    with JDict assms show ?thesis
      by (simp add: is_registrant_def has_registrant_role_def)
  next
    case (Some roles)
    with JDict assms have "py_str_in ''registrant'' roles = Inr reg"
      by (simp add: is_registrant_def)
    then have "reg = holds_registrant roles"
      by (cases roles) (auto simp: map_of_eq_None_iff)
    with JDict Some show ?thesis
      by (simp add: has_registrant_role_def)
  qed
qed (use assms in \<open>simp_all add: is_registrant_def\<close>)

lemma scan_entity_spec:
  assumes "scan_entity st entity = Inr st'"
  shows "email_rdap st' = last_or (email_rdap st) (entity_emails entity)"
    and "cpf_cnpj st' = last_or (cpf_cnpj st) (entity_tax_ids entity)"
proof -
  from assms obtain reg st1 subs ss email where reg: "is_registrant entity = Inr reg"
    and st1: "(if reg then scan_registrant st entity else Inr st) = Inr st1"
    and g: "py_get entity ''entities'' (JList []) = Inr subs"
    and i: "py_iter subs = Inr ss"
    and s: "scan_sub_entities (email_rdap st1) ss = Inr email"
    and st': "st' = st1\<lparr>email_rdap := email\<rparr>"
    unfolding scan_entity_def by (auto dest!: ebind_Inr)
  have e1: "email_rdap st1 = email_rdap st"
    using st1 scan_registrant_spec(1) by (cases reg) auto
  have role: "reg = has_registrant_role entity"
    using reg by (rule is_registrant_role_list)
  have c1: "cpf_cnpj st1 = last_or (cpf_cnpj st) (entity_tax_ids entity)"
    using st1 role scan_registrant_spec(2)
    by (cases reg) (auto simp: entity_tax_ids_def last_or_Nil)
  have "entities_of entity = ss" using g i by (simp add: entities_of_def items_of_def)
  with scan_sub_entities_spec [OF s] e1 st'
  show "email_rdap st' = last_or (email_rdap st) (entity_emails entity)"
    by (simp add: entity_emails_def)
  from c1 st' show "cpf_cnpj st' = last_or (cpf_cnpj st) (entity_tax_ids entity)" by simp
qed

lemma scan_entities_spec:
  "scan_entities st es = Inr st' \<Longrightarrow>
   email_rdap st' = last_or (email_rdap st) (concat (map entity_emails es)) \<and>
   cpf_cnpj st' = last_or (cpf_cnpj st) (concat (map entity_tax_ids es))"
proof (induction es arbitrary: st)
  case Nil
  then show ?case by (simp add: last_or_Nil)
next
  case (Cons entity rest)
  from Cons.prems obtain st1 where a: "scan_entity st entity = Inr st1"
    and b: "scan_entities st1 rest = Inr st'"
    by (auto dest: ebind_Inr)
  from Cons.IH [OF b] scan_entity_spec [OF a] show ?case
    by (simp add: last_or_append)
qed

lemma extract_spec:
  assumes "py_str_in ''error'' r = Inr False" and "extract_key_info r = Inr out"
  shows "email_rdap out = or_not_available (last_or JNull (emails_found r))"
    and "cpf_cnpj out = or_not_available (last_or JNull (tax_ids_found r))"
proof -
  from assms obtain ents es st where g: "py_get r ''entities'' (JList []) = Inr ents"
    and i: "py_iter ents = Inr es" and s: "scan_entities key_info_none es = Inr st"
    and out: "out = with_defaults st"
    unfolding extract_key_info_def by (auto dest!: ebind_Inr)
  have es: "entities_of r = es" using g i by (simp add: entities_of_def items_of_def)
  from scan_entities_spec [OF s] out es
  show "email_rdap out = or_not_available (last_or JNull (emails_found r))"
    and "cpf_cnpj out = or_not_available (last_or JNull (tax_ids_found r))"
    by (simp_all add: with_defaults_def key_info_none_def emails_found_def tax_ids_found_def)
qed

text \<open>Whatever the extractor returns, its tax identifier is a true value.\<close>

lemma truthy_or_not_available: "truthy (or_not_available v)"
  by (simp add: or_not_available_def not_available_def)

lemma extract_key_info_truthy: "extract_key_info r = Inr out \<Longrightarrow> truthy (cpf_cnpj out)"
  unfolding extract_key_info_def
  by (auto dest!: ebind_Inr simp: key_info_error_def with_defaults_def truthy_or_not_available
      split: if_splits)

lemmas extract_defs = extract_key_info_def scan_entity_def scan_registrant_def is_registrant_def
  vcard_of_def registrant_name_def with_defaults_def or_not_available_def key_info_none_def
  key_info_error_def not_available_def

lemma extract_two_ids:
  "extract_key_info rdap_two_ids =
     Inr \<lparr>email_rdap = JStr ''Not available'', cpf_cnpj = JStr ''12.345.678/0001-99'',
          name = JStr ''ACME''\<rparr>"
  by (simp add: rdap_two_ids_def extract_defs)

lemma extract_two_emails:
  "extract_key_info rdap_two_emails =
     Inr \<lparr>email_rdap = JStr ''second@b.br'', cpf_cnpj = JStr ''Not available'',
          name = JStr ''Not available''\<rparr>"
  by (simp add: rdap_two_emails_def extract_defs)

lemmas found_defs = emails_found_def entity_emails_def tax_ids_found_def entity_tax_ids_def
  entities_of_def public_ids_of_def card_rows_of_def items_of_def value_of_def card_email_def
  is_email_row_def is_tax_id_def has_registrant_role_def vcard_of_def List.map_filter_simps

lemma extract_three_entities:
  "extract_key_info rdap_three_entities =
     Inr \<lparr>email_rdap = JStr ''Not available'', cpf_cnpj = JStr ''123.456.789-09'',
          name = JStr ''ACME''\<rparr>"
  by (simp add: rdap_three_entities_def extract_defs)

text \<open>
  C8. For a record tagged as an error the extractor returns \<^verbatim>\<open>Error\<close> in its three
  fields; for a record without the tag whose list of entities is empty (or absent)
  it returns \<^verbatim>\<open>Not available\<close> in its three fields, which is not \<^verbatim>\<open>Error\<close>.
\<close>

theorem extraction_sentinels:
  "(py_str_in ''error'' rdap_info = Inr True \<longrightarrow>
      extract_key_info rdap_info =
        Inr \<lparr>email_rdap = JStr ''Error'', cpf_cnpj = JStr ''Error'', name = JStr ''Error''\<rparr>) \<and>
   (py_str_in ''error'' rdap_info = Inr False \<and>
    py_get rdap_info ''entities'' (JList []) = Inr (JList []) \<longrightarrow>
      extract_key_info rdap_info =
        Inr \<lparr>email_rdap = JStr ''Not available'', cpf_cnpj = JStr ''Not available'',
             name = JStr ''Not available''\<rparr>)"
  by (simp add: extract_defs)

theorem extraction_sentinels_witness:
  "py_str_in ''error'' (JDict [(''error'', JStr ''timed out'')]) = Inr True \<and>
   extract_key_info (JDict [(''error'', JStr ''timed out'')]) =
     Inr \<lparr>email_rdap = JStr ''Error'', cpf_cnpj = JStr ''Error'', name = JStr ''Error''\<rparr> \<and>
   py_str_in ''error'' (JDict [(''entities'', JList [])]) = Inr False \<and>
   py_get (JDict [(''entities'', JList [])]) ''entities'' (JList []) = Inr (JList []) \<and>
   extract_key_info (JDict [(''entities'', JList [])]) =
     Inr \<lparr>email_rdap = JStr ''Not available'', cpf_cnpj = JStr ''Not available'',
          name = JStr ''Not available''\<rparr> \<and>
   JStr ''Not available'' \<noteq> JStr ''Error''"
  using extraction_sentinels [of "JDict [(''error'', JStr ''timed out'')]"]
    extraction_sentinels [of "JDict [(''entities'', JList [])]"]
  by simp

text \<open>
  C10. The extractor is not total on records without the error tag: it raises an
  exception on a registrant entity without \<^verbatim>\<open>vcardArray\<close>, on a sub-entity without
  \<^verbatim>\<open>vcardArray\<close> (the default \<^verbatim>\<open>[[]]\<close> has no position 1), on a public identifier
  without the key \<^verbatim>\<open>type\<close>, and on an empty row of a contact card.
\<close>

theorem extraction_not_total:
  "extract_key_info
     (JDict [(''entities'', JList [JDict [(''roles'', JList [JStr ''registrant''])]])])
     = Inl IndexError \<and>
   extract_key_info
     (JDict [(''entities'', JList [JDict [(''entities'', JList [JDict []])]])])
     = Inl IndexError \<and>
   extract_key_info
     (JDict [(''entities'', JList
        [JDict [(''roles'', JList [JStr ''registrant'']),
                (''vcardArray'', JList [JStr ''vcard'', JList []]),
                (''publicIds'', JList [JDict [(''identifier'', JStr ''1'')]])]])])
     = Inl KeyError \<and>
   extract_key_info
     (JDict [(''entities'', JList
        [JDict [(''entities'', JList
           [JDict [(''vcardArray'', JList [JStr ''vcard'', JList [JList []]])]])]])])
     = Inl IndexError"
  by (simp add: extract_defs)

text \<open>
  C6. For a record without the error tag, the tax identifier the extractor returns
  is the identifier of the last public identifier of type \<^verbatim>\<open>cpf\<close> or \<^verbatim>\<open>cnpj\<close> met
  while scanning, in document order, the entities whose role list holds
  \<^verbatim>\<open>registrant\<close>; the identifiers of the other entities are not looked at. The
  return statement puts \<^verbatim>\<open>Not available\<close> where there is none (or an empty one).
\<close>

theorem tax_identifier_last_match_wins:
  assumes "py_str_in ''error'' rdap_info = Inr False"
    and "extract_key_info rdap_info = Inr out"
  shows "cpf_cnpj out = or_not_available (last_or JNull (tax_ids_found rdap_info))"
  using assms by (rule extract_spec(2))

theorem tax_identifier_last_match_wins_witness:
  "py_str_in ''error'' rdap_three_entities = Inr False \<and>
   extract_key_info rdap_three_entities =
     Inr \<lparr>email_rdap = JStr ''Not available'', cpf_cnpj = JStr ''123.456.789-09'',
          name = JStr ''ACME''\<rparr> \<and>
   map has_registrant_role (entities_of rdap_three_entities) = [False, True, False] \<and>
   tax_ids_found rdap_three_entities = [JStr ''22.222.222/0001-22'', JStr ''123.456.789-09''] \<and>
   or_not_available (last_or JNull (tax_ids_found rdap_three_entities)) =
     JStr ''123.456.789-09''"
proof -
  have a: "py_str_in ''error'' rdap_three_entities = Inr False"
    by (simp add: rdap_three_entities_def)
  have r: "map has_registrant_role (entities_of rdap_three_entities) = [False, True, False]"
    by (simp add: rdap_three_entities_def found_defs)
  have b: "tax_ids_found rdap_three_entities =
      [JStr ''22.222.222/0001-22'', JStr ''123.456.789-09'']"
    by (simp add: rdap_three_entities_def found_defs)
  from tax_identifier_last_match_wins [OF a extract_three_entities] a r b
    extract_three_entities
  show ?thesis by simp
qed

text \<open>
  C5, as stated, fails: the scan goes on to the later sub-entities after an email
  has been found. In this record the first email in document order is
  \<^verbatim>\<open>first@a.br\<close>, and the extractor returns the email of the second contact.
\<close>

theorem first_email_does_not_win:
  "hd (emails_found rdap_two_emails) = JStr ''first@a.br'' \<and>
   extract_key_info rdap_two_emails =
     Inr \<lparr>email_rdap = JStr ''second@b.br'', cpf_cnpj = JStr ''Not available'',
          name = JStr ''Not available''\<rparr>"
  by (simp add: extract_two_emails) (simp add: rdap_two_emails_def found_defs)

text \<open>
  C5, amended. For a record without the error tag, the email the extractor returns
  is taken from the last sub-entity, in document order and whatever the roles, whose
  card has an email row: it is the fourth element of the first such row of that
  card. The return statement puts \<^verbatim>\<open>Not available\<close> where there is none (or an
  empty one).
\<close>

theorem email_of_last_card_wins:
  assumes "py_str_in ''error'' rdap_info = Inr False"
    and "extract_key_info rdap_info = Inr out"
  shows "email_rdap out = or_not_available (last_or JNull (emails_found rdap_info))"
  using assms by (rule extract_spec(1))

theorem email_of_last_card_wins_witness:
  "py_str_in ''error'' rdap_two_emails = Inr False \<and>
   extract_key_info rdap_two_emails =
     Inr \<lparr>email_rdap = JStr ''second@b.br'', cpf_cnpj = JStr ''Not available'',
          name = JStr ''Not available''\<rparr> \<and>
   emails_found rdap_two_emails = [JStr ''first@a.br'', JStr ''second@b.br''] \<and>
   or_not_available (last_or JNull (emails_found rdap_two_emails)) = JStr ''second@b.br''"
proof -
  have a: "py_str_in ''error'' rdap_two_emails = Inr False"
    by (simp add: rdap_two_emails_def)
  have b: "emails_found rdap_two_emails = [JStr ''first@a.br'', JStr ''second@b.br'']"
    by (simp add: rdap_two_emails_def found_defs)
  from email_of_last_card_wins [OF a extract_two_emails] a b extract_two_emails
  show ?thesis by simp
qed

section \<open>Properties of the domain normalizer\<close>









lemmas clean_defs = clean_domain_def netloc_def strip_www_def rstrip_slash_def
  strip_scheme_def lower_def lower_char_def is_upper_def strip_def is_space_def startswith_def







subsection \<open>The steps of the normalizer, one by one\<close>



lemma dropWhile_all: "\<forall>x \<in> set xs. P x \<Longrightarrow> dropWhile P xs = []"
  by simp













section \<open>Properties of the store and of the orchestrator\<close>

lemma emit_fields [simp]:
  "events (emit e st) = events st @ [e]"
  "clock (emit e st) = clock st"
  "CONTADOR_SUCESSO (emit e st) = CONTADOR_SUCESSO st"
  "informacoes_empresa_csv (emit e st) = informacoes_empresa_csv st"
  "raised (emit e st) = raised st"
  by (simp_all add: emit_def)

lemma logging_fields [simp]:
  "events (logging l m st) = events st @ [Log l m]"
  "clock (logging l m st) = clock st"
  "CONTADOR_SUCESSO (logging l m st) = CONTADOR_SUCESSO st"
  "informacoes_empresa_csv (logging l m st) = informacoes_empresa_csv st"
  "raised (logging l m st) = raised st"
  by (simp_all add: logging_def)

lemma sleep_fields [simp]:
  "events (sleep d st) = events st @ [Sleep d]"
  "clock (sleep d st) = clock st + d"
  "CONTADOR_SUCESSO (sleep d st) = CONTADOR_SUCESSO st"
  "informacoes_empresa_csv (sleep d st) = informacoes_empresa_csv st"
  "raised (sleep d st) = raised st"
  by (simp_all add: sleep_def)

lemma request_fields [simp]:
  "events (request env url st) = events st @ [HttpGet url]"
  "clock (request env url st) = clock st + http_secs env url"
  "CONTADOR_SUCESSO (request env url st) = CONTADOR_SUCESSO st"
  "informacoes_empresa_csv (request env url st) = informacoes_empresa_csv st"
  "raised (request env url st) = raised st"
  by (simp_all add: request_def)

lemma raise_fields [simp]:
  "events (raise e st) = events st"
  "clock (raise e st) = clock st"
  "CONTADOR_SUCESSO (raise e st) = CONTADOR_SUCESSO st"
  "informacoes_empresa_csv (raise e st) = informacoes_empresa_csv st"
  "raised (raise e st) = Some e"
  by (simp_all add: raise_def)

lemma stored_domains_cong:
  "informacoes_empresa_csv st' = informacoes_empresa_csv st \<Longrightarrow>
   stored_domains st' = stored_domains st"
  by (simp add: stored_domains_def read_table_def)

subsection \<open>Extension of a state\<close>

lemma extendsI:
  assumes "events st' = events st @ evs"
    and "clock st' = clock st + sum_list (map (secs env) evs)"
    and "CONTADOR_SUCESSO st' = CONTADOR_SUCESSO st + writes evs"
  shows "extends env st st'"
  using assms by (simp add: extends_def new_events_def)

lemma extends_refl: "extends env st st"
  by (rule extendsI [where evs = "[]"]) (simp_all add: writes_def)

lemma writes_append: "writes (xs @ ys) = writes xs + writes ys"
  by (simp add: writes_def)

lemma extends_trans:
  assumes "extends env st st1" and "extends env st1 st2"
  shows "extends env st st2"
proof (rule extendsI)
  show "events st2 = events st @ (new_events st st1 @ new_events st1 st2)"
    using assms by (simp add: extends_def)
  show "clock st2 = clock st + sum_list (map (secs env) (new_events st st1 @ new_events st1 st2))"
    using assms by (simp add: extends_def)
  show "CONTADOR_SUCESSO st2 = CONTADOR_SUCESSO st + writes (new_events st st1 @ new_events st1 st2)"
    using assms by (simp add: extends_def writes_append)
qed

lemma new_eventsI: "events st' = events st @ evs \<Longrightarrow> new_events st st' = evs"
  by (simp add: new_events_def)

lemma new_events_trans:
  assumes "extends env st st1" and "extends env st1 st2"
  shows "new_events st st2 = new_events st st1 @ new_events st1 st2"
proof -
  have "events st2 = events st @ (new_events st st1 @ new_events st1 st2)"
    using assms by (simp add: extends_def)
  then show ?thesis by (rule new_eventsI)
qed

lemma extends_logging: "extends env st (logging l m st)"
  by (rule extendsI [where evs = "[Log l m]"]) (simp_all add: writes_def)

lemma extends_sleep: "extends env st (sleep d st)"
  by (rule extendsI [where evs = "[Sleep d]"]) (simp_all add: writes_def)

lemma extends_request: "extends env st (request env url st)"
  by (rule extendsI [where evs = "[HttpGet url]"]) (simp_all add: writes_def)

lemma extends_raise: "extends env st (raise e st)"
  by (rule extendsI [where evs = "[]"]) (simp_all add: writes_def)

lemma new_events_logging [simp]: "new_events st (logging l m st) = [Log l m]"
  by (simp add: new_events_def)

lemma new_events_sleep [simp]: "new_events st (sleep d st) = [Sleep d]"
  by (simp add: new_events_def)

lemma new_events_request [simp]: "new_events st (request env url st) = [HttpGet url]"
  by (simp add: new_events_def)

lemma new_events_raise [simp]: "new_events st (raise e st) = []"
  by (simp add: new_events_def)

lemma new_events_self [simp]: "new_events st st = []"
  by (simp add: new_events_def)

subsection \<open>The store\<close>

lemma new_row_Domain: "new_row env dominio rdap_info cnpj_info qsa = Inr r \<Longrightarrow> Domain r = dominio"
  unfolding new_row_def by (auto dest!: ebind_Inr)

text \<open>
  What an append that returns does: nothing but a log line when the domain is a
  key of the table, and otherwise one new row with that key, one write and one
  more success.
\<close>

lemma save_to_csv_present:
  "dominio \<in> set (stored_domains st) \<Longrightarrow>
   save_to_csv env dominio rdap_info cnpj_info st =
     Inr (False, logging INFO (Ja_esta_na_planilha dominio) st)"
  by (simp add: save_to_csv_def stored_domains_def)

lemma save_to_csv_Inr:
  assumes "save_to_csv env dominio rdap_info cnpj_info st = Inr (saved, st')"
  shows "extends env st st' \<and> raised st' = raised st \<and>
         (if saved
          then dominio \<notin> set (stored_domains st) \<and>
               (\<exists>r. Domain r = dominio \<and>
                    informacoes_empresa_csv st' = Some (read_table st @ [r]) \<and>
                    new_events st st' =
                      [ToCsv (read_table st @ [r]), Log INFO (Salvas_com_sucesso dominio)])
          else dominio \<in> set (stored_domains st) \<and>
               st' = logging INFO (Ja_esta_na_planilha dominio) st)"
proof (cases "dominio \<in> set (stored_domains st)")
  case True
  with assms show ?thesis
    by (auto simp: save_to_csv_present extends_logging)
next
  case False
  with assms obtain qsa r where r: "new_row env dominio rdap_info cnpj_info qsa = Inr r"
    and s: "saved" and st': "st' =
      (logging INFO (Salvas_com_sucesso dominio)
         ((emit (ToCsv (read_table st @ [r])) st)
            \<lparr>informacoes_empresa_csv := Some (read_table st @ [r])\<rparr>))
        \<lparr>CONTADOR_SUCESSO := CONTADOR_SUCESSO st + 1\<rparr>"
    by (auto simp: save_to_csv_def stored_domains_def Let_def dest!: ebind_Inr)
  have ev: "events st' =
      events st @ [ToCsv (read_table st @ [r]), Log INFO (Salvas_com_sucesso dominio)]"
    using st' by simp
  have "extends env st st'"
    by (rule extendsI [OF ev]) (simp_all add: st' writes_def)
  moreover have "new_events st st' =
      [ToCsv (read_table st @ [r]), Log INFO (Salvas_com_sucesso dominio)]"
    using ev by (simp add: new_events_def)
  ultimately show ?thesis
    using s False st' new_row_Domain [OF r] by auto
qed

lemma save_to_csv_domains:
  assumes "save_to_csv env dominio rdap_info cnpj_info st = Inr (saved, st')"
  shows "stored_domains st' = (if saved then stored_domains st @ [dominio] else stored_domains st)"
    and "saved \<Longrightarrow> dominio \<notin> set (stored_domains st)"
    and "distinct (stored_domains st) \<Longrightarrow> distinct (stored_domains st')"
proof -
  have s: "if saved
          then dominio \<notin> set (stored_domains st) \<and>
               (\<exists>r. Domain r = dominio \<and>
                    informacoes_empresa_csv st' = Some (read_table st @ [r]) \<and>
                    new_events st st' =
                      [ToCsv (read_table st @ [r]), Log INFO (Salvas_com_sucesso dominio)])
          else dominio \<in> set (stored_domains st) \<and>
               st' = logging INFO (Ja_esta_na_planilha dominio) st"
    using save_to_csv_Inr [OF assms] by (elim conjE)
  show a: "stored_domains st' = (if saved then stored_domains st @ [dominio] else stored_domains st)"
  proof (cases saved)
    case True
    with s have "\<exists>r. Domain r = dominio \<and>
        informacoes_empresa_csv st' = Some (read_table st @ [r])"
      by (simp only: if_True) blast
    then obtain r where "Domain r = dominio"
      and "informacoes_empresa_csv st' = Some (read_table st @ [r])" by blast
    with True show ?thesis by (simp add: stored_domains_def read_table_def)
  next
    case False
    with s have "st' = logging INFO (Ja_esta_na_planilha dominio) st"
      by (simp only: if_False)
    then have "stored_domains st' = stored_domains st"
      by (simp add: stored_domains_def read_table_def)
    with False show ?thesis by simp
  qed
  show b: "dominio \<notin> set (stored_domains st)" if saved
    using s that by simp
  show "distinct (stored_domains st) \<Longrightarrow> distinct (stored_domains st')"
    using a b by (cases saved) simp_all
qed

subsection \<open>The two clients\<close>

lemma consulta_cnpj_spec:
  assumes "consulta_cnpj env cnpj st = (answer, st1)"
  shows "extends env st st1" and "raised st1 = raised st"
    and "informacoes_empresa_csv st1 = informacoes_empresa_csv st"
    and "\<exists>evs. new_events st st1 = HttpGet (cnpj_url cnpj) # evs \<and> writes evs = 0"
proof -
  let ?st0 = "request env (cnpj_url cnpj) st"
  from assms have "st1 = ?st0 \<or> (\<exists>e. st1 = logging ERROR (Erro_consulta_CNPJ cnpj e) ?st0)"
    by (auto simp: consulta_cnpj_def Let_def split: sum.splits)
  then show "extends env st st1" and "raised st1 = raised st"
    and "informacoes_empresa_csv st1 = informacoes_empresa_csv st"
    and "\<exists>evs. new_events st st1 = HttpGet (cnpj_url cnpj) # evs \<and> writes evs = 0"
    by (auto simp: extends_request new_events_def writes_def
        intro: extends_trans [OF extends_request extends_logging])
qed

lemma consulta_rdap_spec:
  assumes "consulta_rdap env dominio st = (answer, st1)"
  shows "extends env st st1" and "raised st1 = raised st"
    and "informacoes_empresa_csv st1 = informacoes_empresa_csv st"
    and "\<exists>evs. new_events st st1 = HttpGet (rdap_url dominio) # evs \<and> writes evs = 0"
proof -
  let ?st0 = "request env (rdap_url dominio) st"
  from assms have "st1 = ?st0 \<or> (\<exists>e. st1 = logging ERROR (Erro_consulta_RDAP dominio e) ?st0)"
    by (auto simp: consulta_rdap_def Let_def split: sum.splits)
  then show "extends env st st1" and "raised st1 = raised st"
    and "informacoes_empresa_csv st1 = informacoes_empresa_csv st"
    and "\<exists>evs. new_events st st1 = HttpGet (rdap_url dominio) # evs \<and> writes evs = 0"
    by (auto simp: extends_request new_events_def writes_def
        intro: extends_trans [OF extends_request extends_logging])
qed

lemma log_error_of_spec:
  "extends env st (log_error_of m x st)"
  "informacoes_empresa_csv (log_error_of m x st) = informacoes_empresa_csv st"
  "writes (new_events st (log_error_of m x st)) = 0"
  by (auto simp: log_error_of_def extends_raise extends_logging writes_def split: sum.splits)

subsection \<open>The branch that calls the company registry\<close>

text \<open>
  The outcomes of the branch: after the request and the wait of ten seconds, the
  state is left as it is (with an exception or an error line), or one append is
  made, followed by a log line.
\<close>

lemma lookup_and_store_cases:
  obtains (no_write) answer st1 st2 where
      "consulta_cnpj env cnpj st = (answer, st1)"
      "extends env (sleep 10 st1) st2" "writes (new_events (sleep 10 st1) st2) = 0"
      "informacoes_empresa_csv st2 = informacoes_empresa_csv st"
      "lookup_and_store env dominio key_info cnpj st = st2"
  | (append) answer st1 info saved st3 l m where
      "consulta_cnpj env cnpj st = (answer, st1)"
      "save_to_csv env dominio key_info info (sleep 10 st1) = Inr (saved, st3)"
      "lookup_and_store env dominio key_info cnpj st = logging l m st3"
proof -
  obtain answer st1 where c: "consulta_cnpj env cnpj st = (answer, st1)"
    by (cases "consulta_cnpj env cnpj st")
  let ?st2 = "sleep 10 st1"
  let ?res = "lookup_and_store env dominio key_info cnpj st"
  have same: "informacoes_empresa_csv ?st2 = informacoes_empresa_csv st"
    using consulta_cnpj_spec(3) [OF c] by simp
  show thesis
  proof (cases "dict_without_error answer")
    case False
    then have "?res = log_error_of (Erro_ReceitaWS dominio) answer ?st2"
      using c by (simp add: lookup_and_store_def)
    then show thesis
      using no_write [OF c, of ?res] same by (simp add: log_error_of_spec)
  next
    case True
    show thesis
    proof (cases "format_cnpj_info answer")
      case (Inl e)
      then have "?res = raise e ?st2"
        using c True by (simp add: lookup_and_store_def)
      then show thesis
        using no_write [OF c, of ?res] same by (simp add: extends_raise writes_def)
    next
      case (Inr info)
      show thesis
      proof (cases "save_to_csv env dominio key_info info ?st2")
        case (Inl e)
        then have "?res = raise e ?st2"
          using c True Inr by (simp add: lookup_and_store_def)
        then show thesis
          using no_write [OF c, of ?res] same by (simp add: extends_raise writes_def)
      next
        case (Inr p)
        obtain saved st3 where p: "p = (saved, st3)" by (cases p)
        have "\<exists>l m. ?res = logging l m st3"
          using c True \<open>format_cnpj_info answer = Inr info\<close> Inr p
          by (auto simp: lookup_and_store_def)
        then show thesis
          using append [OF c] Inr p by blast
      qed
    qed
  qed
qed

lemma lookup_and_store_spec:
  shows "extends env st (lookup_and_store env dominio key_info cnpj st)"
    and "\<exists>evs. new_events st (lookup_and_store env dominio key_info cnpj st) =
               HttpGet (cnpj_url cnpj) # evs \<and> Sleep 10 \<in> set evs \<and> writes evs \<le> 1"
    and "distinct (stored_domains st) \<Longrightarrow>
         distinct (stored_domains (lookup_and_store env dominio key_info cnpj st))"
proof -
  let ?res = "lookup_and_store env dominio key_info cnpj st"
  have "extends env st ?res \<and>
        (\<exists>evs. new_events st ?res = HttpGet (cnpj_url cnpj) # evs \<and> Sleep 10 \<in> set evs \<and>
               writes evs \<le> 1) \<and>
        (distinct (stored_domains st) \<longrightarrow> distinct (stored_domains ?res))"
  proof (cases rule: lookup_and_store_cases [where env = env and cnpj = cnpj and st = st
      and dominio = dominio and key_info = key_info])
    case (no_write answer st1 st2)
    note c = consulta_cnpj_spec [OF no_write(1)]
    from c(4) obtain evs where evs: "new_events st st1 = HttpGet (cnpj_url cnpj) # evs"
      and w: "writes evs = 0" by blast
    have e1: "extends env st (sleep 10 st1)"
      using c(1) extends_sleep by (rule extends_trans)
    have n1: "new_events st (sleep 10 st1) = HttpGet (cnpj_url cnpj) # evs @ [Sleep 10]"
      using new_events_trans [OF c(1) extends_sleep] evs by simp
    have e2: "extends env st st2"
      using e1 no_write(2) by (rule extends_trans)
    have n2: "new_events st st2 =
        HttpGet (cnpj_url cnpj) # (evs @ [Sleep 10] @ new_events (sleep 10 st1) st2)"
      using new_events_trans [OF e1 no_write(2)] n1 by simp
    have "stored_domains st2 = stored_domains st"
      using no_write(4) by (rule stored_domains_cong)
    with e2 n2 w no_write(3,5) show ?thesis
      by (auto simp: writes_append writes_def)
  next
    case (append answer st1 info saved st3 l m)
    note c = consulta_cnpj_spec [OF append(1)]
    note s = save_to_csv_Inr [OF append(2)]
    from c(4) obtain evs where evs: "new_events st st1 = HttpGet (cnpj_url cnpj) # evs"
      and w: "writes evs = 0" by blast
    have e1: "extends env st (sleep 10 st1)"
      using c(1) extends_sleep by (rule extends_trans)
    have n1: "new_events st (sleep 10 st1) = HttpGet (cnpj_url cnpj) # evs @ [Sleep 10]"
      using new_events_trans [OF c(1) extends_sleep] evs by simp
    from s have s1: "extends env (sleep 10 st1) st3" by blast
    have e3: "extends env (sleep 10 st1) (logging l m st3)"
      using s1 extends_logging by (rule extends_trans)
    have n3: "new_events (sleep 10 st1) (logging l m st3) =
        new_events (sleep 10 st1) st3 @ [Log l m]"
      using new_events_trans [OF s1 extends_logging] by simp
    have e4: "extends env st (logging l m st3)"
      using e1 e3 by (rule extends_trans)
    have n4: "new_events st (logging l m st3) =
        HttpGet (cnpj_url cnpj) # (evs @ [Sleep 10] @ new_events (sleep 10 st1) st3 @ [Log l m])"
      using new_events_trans [OF e1 e3] n1 n3 by simp
    have w3: "writes (new_events (sleep 10 st1) st3) \<le> 1"
      using s by (cases saved) (auto simp: writes_def)
    have tab: "stored_domains (sleep 10 st1) = stored_domains st"
      using c(3) by (simp add: stored_domains_def read_table_def)
    have "stored_domains (logging l m st3) = stored_domains st3"
      by (simp add: stored_domains_def read_table_def)
    then have d: "distinct (stored_domains st) \<longrightarrow> distinct (stored_domains (logging l m st3))"
      using save_to_csv_domains(3) [OF append(2)] tab by simp
    from e4 n4 w w3 d append(3) show ?thesis
      by (auto simp: writes_append writes_def)
  qed
  then show "extends env st ?res"
    and "\<exists>evs. new_events st ?res = HttpGet (cnpj_url cnpj) # evs \<and> Sleep 10 \<in> set evs \<and>
               writes evs \<le> 1"
    and "distinct (stored_domains st) \<Longrightarrow> distinct (stored_domains ?res)"
    by blast+
qed

subsection \<open>One domain\<close>

lemma stored_domains_logging [simp]: "stored_domains (logging l m st) = stored_domains st"
  by (simp add: stored_domains_def read_table_def)

lemma stored_domains_sleep [simp]: "stored_domains (sleep d st) = stored_domains st"
  by (simp add: stored_domains_def read_table_def)

lemma stored_domains_raise [simp]: "stored_domains (raise e st) = stored_domains st"
  by (simp add: stored_domains_def read_table_def)

lemma stored_domains_log_error_of [simp]:
  "stored_domains (log_error_of m x st) = stored_domains st"
  by (simp add: stored_domains_def read_table_def log_error_of_spec)

text \<open>
  The outcomes of \<open>enrich\<close>: no request and no write, or the branch that calls the
  company registry, entered after one log line with an identifier of 14 digits.
\<close>

lemma enrich_cases:
  obtains (stop) "extends env st (enrich env dominio rdap_resultado st)"
      "new_events st (enrich env dominio rdap_resultado st) = [] \<or>
       (\<exists>l m. new_events st (enrich env dominio rdap_resultado st) = [Log l m]) \<or>
       (\<exists>l m l' m'. new_events st (enrich env dominio rdap_resultado st) = [Log l m, Log l' m'])"
      "informacoes_empresa_csv (enrich env dominio rdap_resultado st) = informacoes_empresa_csv st"
  | (lookup) key_info cnpj where
      "dict_without_error rdap_resultado" "extract_key_info rdap_resultado = Inr key_info"
      "sanitize_cnpj (cpf_cnpj key_info) = Inr cnpj" "length cnpj = 14"
      "enrich env dominio rdap_resultado st =
         lookup_and_store env dominio key_info cnpj
           (logging INFO (Dados_RDAP_recuperados dominio) st)"
proof -
  let ?res = "enrich env dominio rdap_resultado st"
  let ?st1 = "logging INFO (Dados_RDAP_recuperados dominio) st"
  show thesis
  proof (cases "dict_without_error rdap_resultado")
    case False
    then have r: "?res = log_error_of (Erro_RDAP dominio) rdap_resultado st"
      by (simp add: enrich_def)
    show thesis
    proof (rule stop)
      show "extends env st ?res" unfolding r by (rule log_error_of_spec)
      have "new_events st ?res = [] \<or> (\<exists>l m. new_events st ?res = [Log l m])"
        unfolding r by (auto simp: log_error_of_def split: sum.splits)
      then show "new_events st ?res = [] \<or> (\<exists>l m. new_events st ?res = [Log l m]) \<or>
          (\<exists>l m l' m'. new_events st ?res = [Log l m, Log l' m'])" by blast
      show "informacoes_empresa_csv ?res = informacoes_empresa_csv st"
        unfolding r by (rule log_error_of_spec)
    qed
  next
    case True
    show thesis
    proof (cases "extract_key_info rdap_resultado")
      case (Inl e)
      with True have r: "?res = raise e st" by (simp add: enrich_def)
      show thesis
      proof (rule stop)
        show "extends env st ?res" unfolding r by (rule extends_raise)
        show "new_events st ?res = [] \<or> (\<exists>l m. new_events st ?res = [Log l m]) \<or>
            (\<exists>l m l' m'. new_events st ?res = [Log l m, Log l' m'])"
          unfolding r by simp
        show "informacoes_empresa_csv ?res = informacoes_empresa_csv st"
          unfolding r by simp
      qed
    next
      case (Inr key_info)
      then have t: "truthy (cpf_cnpj key_info)" by (rule extract_key_info_truthy)
      show thesis
      proof (cases "sanitize_cnpj (cpf_cnpj key_info)")
        case (Inl e)
        with True Inr t have r: "?res = raise e ?st1" by (simp add: enrich_def)
        show thesis
        proof (rule stop)
          show "extends env st ?res"
            unfolding r using extends_logging extends_raise by (rule extends_trans)
          have "new_events st ?res = [Log INFO (Dados_RDAP_recuperados dominio)]"
            unfolding r by (simp add: new_events_def)
          then show "new_events st ?res = [] \<or> (\<exists>l m. new_events st ?res = [Log l m]) \<or>
              (\<exists>l m l' m'. new_events st ?res = [Log l m, Log l' m'])" by blast
          show "informacoes_empresa_csv ?res = informacoes_empresa_csv st"
            unfolding r by simp
        qed
      next
        case (Inr cnpj)
        show thesis
        proof (cases "length cnpj = 14")
          case True
          with \<open>dict_without_error rdap_resultado\<close>
            \<open>extract_key_info rdap_resultado = Inr key_info\<close> Inr t
          have "?res = lookup_and_store env dominio key_info cnpj ?st1"
            by (simp add: enrich_def)
          with \<open>dict_without_error rdap_resultado\<close>
            \<open>extract_key_info rdap_resultado = Inr key_info\<close> Inr True
          show thesis by (rule lookup)
        next
          case False
          with \<open>dict_without_error rdap_resultado\<close>
            \<open>extract_key_info rdap_resultado = Inr key_info\<close> Inr t
          have r: "?res = logging WARNING (Nao_e_CNPJ_valido dominio) ?st1"
            by (simp add: enrich_def)
          show thesis
          proof (rule stop)
            show "extends env st ?res"
              unfolding r using extends_logging extends_logging by (rule extends_trans)
            have "new_events st ?res =
                [Log INFO (Dados_RDAP_recuperados dominio),
                 Log WARNING (Nao_e_CNPJ_valido dominio)]"
              unfolding r by (simp add: new_events_def)
            then show "new_events st ?res = [] \<or> (\<exists>l m. new_events st ?res = [Log l m]) \<or>
                (\<exists>l m l' m'. new_events st ?res = [Log l m, Log l' m'])" by blast
            show "informacoes_empresa_csv ?res = informacoes_empresa_csv st"
              unfolding r by simp
          qed
        qed
      qed
    qed
  qed
qed

lemma enrich_spec:
  shows "extends env st (enrich env dominio rdap_resultado st)"
    and "writes (new_events st (enrich env dominio rdap_resultado st)) \<le> 1"
    and "distinct (stored_domains st) \<Longrightarrow>
         distinct (stored_domains (enrich env dominio rdap_resultado st))"
proof -
  let ?res = "enrich env dominio rdap_resultado st"
  let ?st1 = "logging INFO (Dados_RDAP_recuperados dominio) st"
  have "extends env st ?res \<and> writes (new_events st ?res) \<le> 1 \<and>
        (distinct (stored_domains st) \<longrightarrow> distinct (stored_domains ?res))"
  proof (cases rule: enrich_cases [where env = env and st = st and dominio = dominio
      and rdap_resultado = rdap_resultado])
    case stop
    from stop(2) have "writes (new_events st ?res) = 0"
      by (auto simp: writes_def)
    moreover have "stored_domains ?res = stored_domains st"
      using stop(3) by (rule stored_domains_cong)
    ultimately show ?thesis using stop(1) by simp
  next
    case (lookup key_info cnpj)
    note l = lookup_and_store_spec [where env = env and st = ?st1 and dominio = dominio
      and key_info = key_info and cnpj = cnpj]
    have e: "extends env st ?res"
      unfolding lookup(5) using extends_logging l(1) by (rule extends_trans)
    have "new_events st ?res = Log INFO (Dados_RDAP_recuperados dominio) # new_events ?st1 ?res"
      unfolding lookup(5) using new_events_trans [OF extends_logging l(1)] by simp
    moreover from l(2) have "writes (new_events ?st1 ?res) \<le> 1"
      unfolding lookup(5) by (auto simp: writes_def)
    ultimately have w: "writes (new_events st ?res) \<le> 1"
      by (simp add: writes_def)
    have "distinct (stored_domains st) \<longrightarrow> distinct (stored_domains ?res)"
      unfolding lookup(5) using l(3) by simp
    with e w show ?thesis by simp
  qed
  then show "extends env st ?res" and "writes (new_events st ?res) \<le> 1"
    and "distinct (stored_domains st) \<Longrightarrow> distinct (stored_domains ?res)"
    by blast+
qed

text \<open>
  The processing of one domain starts with the request to the registry and the
  wait of ten seconds, makes at most one write, and keeps the keys distinct.
\<close>

lemma process_spec:
  shows "extends env st (process env dominio st)"
    and "\<exists>evs evs'. new_events st (process env dominio st) =
           Log INFO (Processando dominio) # HttpGet (rdap_url dominio) # evs @ Sleep 10 # evs'"
    and "writes (new_events st (process env dominio st)) \<le> 1"
    and "distinct (stored_domains st) \<Longrightarrow> distinct (stored_domains (process env dominio st))"
proof -
  let ?st1 = "logging INFO (Processando dominio) st"
  obtain answer st2 where c: "consulta_rdap env dominio ?st1 = (answer, st2)"
    by (cases "consulta_rdap env dominio ?st1")
  let ?st3 = "sleep 10 st2"
  let ?res = "enrich env dominio answer ?st3"
  have p: "process env dominio st = ?res"
    using c by (simp add: process_def)
  note r = consulta_rdap_spec [OF c]
  note e = enrich_spec [where env = env and st = ?st3 and dominio = dominio
      and rdap_resultado = answer]
  from r(4) obtain evs where evs: "new_events ?st1 st2 = HttpGet (rdap_url dominio) # evs"
    and w: "writes evs = 0" by blast
  have e2: "extends env st st2"
    using extends_logging r(1) by (rule extends_trans)
  have n2: "new_events st st2 = Log INFO (Processando dominio) # HttpGet (rdap_url dominio) # evs"
    using new_events_trans [OF extends_logging r(1)] evs by simp
  have e3: "extends env st ?st3"
    using e2 extends_sleep by (rule extends_trans)
  have n3: "new_events st ?st3 =
      Log INFO (Processando dominio) # HttpGet (rdap_url dominio) # evs @ [Sleep 10]"
    using new_events_trans [OF e2 extends_sleep] n2 by simp
  show "extends env st (process env dominio st)"
    unfolding p using e3 e(1) by (rule extends_trans)
  have n4: "new_events st ?res =
      Log INFO (Processando dominio) # HttpGet (rdap_url dominio) # evs @
        Sleep 10 # new_events ?st3 ?res"
    using new_events_trans [OF e3 e(1)] n3 by simp
  then show "\<exists>evs evs'. new_events st (process env dominio st) =
           Log INFO (Processando dominio) # HttpGet (rdap_url dominio) # evs @ Sleep 10 # evs'"
    unfolding p by blast
  show "writes (new_events st (process env dominio st)) \<le> 1"
    unfolding p n4 using w e(2) by (simp add: writes_def)
  have "stored_domains ?st3 = stored_domains st"
    using r(3) by (simp add: stored_domains_def read_table_def)
  then show "distinct (stored_domains st) \<Longrightarrow> distinct (stored_domains (process env dominio st))"
    unfolding p using e(3) by simp
qed

subsection \<open>The pacing and the loop\<close>

lemma floor_sleep_eq:
  "floor_sleep inicio st = sleep (max 0 (60 - (clock st - inicio))) st"
  by (simp add: floor_sleep_def ATRASO_BASE_def Let_def)

lemma extended_pause_eq:
  "extended_pause st =
     (if CONTADOR_SUCESSO st > 0 \<and> CONTADOR_SUCESSO st mod 5 = 0
      then sleep 300 (logging INFO (Aplicando_atraso 5 (CONTADOR_SUCESSO st)) st)
      else st)"
  by (simp add: extended_pause_def ATRASO_PERSONALIZADO_def)

lemma extends_extended_pause: "extends env st (extended_pause st)"
  unfolding extended_pause_eq
  by (auto intro: extends_refl extends_trans [OF extends_logging extends_sleep])

lemma extended_pause_fields [simp]:
  "CONTADOR_SUCESSO (extended_pause st) = CONTADOR_SUCESSO st"
  "informacoes_empresa_csv (extended_pause st) = informacoes_empresa_csv st"
  "raised (extended_pause st) = raised st"
  by (simp_all add: extended_pause_eq)

lemma floor_sleep_fields [simp]:
  "CONTADOR_SUCESSO (floor_sleep t st) = CONTADOR_SUCESSO st"
  "informacoes_empresa_csv (floor_sleep t st) = informacoes_empresa_csv st"
  "raised (floor_sleep t st) = raised st"
  by (simp_all add: floor_sleep_eq)

lemma loop_body_spec:
  shows "extends env st (loop_body env dominios_existentes dominio st)"
    and "distinct (stored_domains st) \<Longrightarrow>
         distinct (stored_domains (loop_body env dominios_existentes dominio st))"
proof -
  let ?st1 = "process env dominio st"
  let ?st2 = "floor_sleep (clock st) ?st1"
  have e2: "extends env st ?st2"
    unfolding floor_sleep_eq using process_spec(1) extends_sleep by (rule extends_trans)
  have e3: "extends env st (extended_pause ?st2)"
    using e2 extends_extended_pause by (rule extends_trans)
  show "extends env st (loop_body env dominios_existentes dominio st)"
    using e3 process_spec(1) [where env = env and st = st and dominio = dominio]
    by (simp add: loop_body_def Let_def extends_logging)
  have "stored_domains (extended_pause ?st2) = stored_domains ?st1"
    by (simp add: stored_domains_def read_table_def)
  then show "distinct (stored_domains st) \<Longrightarrow>
         distinct (stored_domains (loop_body env dominios_existentes dominio st))"
    using process_spec(4) [where env = env and st = st and dominio = dominio]
    by (simp add: loop_body_def Let_def)
qed

lemma main_loop_spec:
  shows "extends env st (main_loop env dominios_existentes domains st)"
    and "distinct (stored_domains st) \<Longrightarrow>
         distinct (stored_domains (main_loop env dominios_existentes domains st))"
proof (induction domains arbitrary: st)
  case Nil
  {
    case 1
    show ?case by (simp add: extends_refl)
  next
    case 2
    then show ?case by simp
  }
next
  case (Cons dominio rest)
  {
    case 1
    show ?case
      using loop_body_spec(1) [where env = env and st = st and dominio = dominio
          and dominios_existentes = dominios_existentes]
        extends_trans [OF loop_body_spec(1) Cons.IH(1)]
      by (simp add: Let_def)
  next
    case 2
    then show ?case
      using loop_body_spec(2) [where env = env and st = st and dominio = dominio
          and dominios_existentes = dominios_existentes] Cons.IH(2)
      by (simp add: Let_def)
  }
qed

text \<open>When every domain of the list is a key already loaded, the loop only logs.\<close>

lemma main_loop_all_present:
  assumes "set domains \<subseteq> dominios_existentes" and "raised st = None"
  shows "main_loop env dominios_existentes domains st =
           st\<lparr>events := events st @ map (\<lambda>d. Log INFO (Ja_esta_na_planilha d)) domains\<rparr>"
  using assms
proof (induction domains arbitrary: st)
  case Nil
  then show ?case by simp
next
  case (Cons dominio rest)
  let ?st1 = "logging INFO (Ja_esta_na_planilha dominio) st"
  from Cons.prems have b: "loop_body env dominios_existentes dominio st = ?st1"
    by (simp add: loop_body_def)
  from Cons.prems have "set rest \<subseteq> dominios_existentes" and "raised ?st1 = None"
    by simp_all
  from Cons.IH [OF this] b Cons.prems(2) show ?case
    by (simp add: logging_def emit_def)
qed

subsection \<open>The example world\<close>

lemma world_six_fields [simp]:
  "http_get world_six = answer_but_f"
  "http_secs world_six = no_time"
  "dominios_csv world_six =
     Some [[''dominio''], [''a.br''], [''b.br''], [''c.br''], [''d.br''], [''e.br''], [''f.br'']]"
  by (simp_all add: world_six_def)

lemma answer_rdap:
  "answer_but_f (rdap_url d) =
     (if d = ''f.br'' then Inl ''404 Client Error'' else Inr rdap_two_ids)"
  by (simp add: answer_but_f_def answer_ok_def rdap_url_def startswith_def)

lemma answer_cnpj: "answer_but_f (cnpj_url c) = Inr receita_acme"
  by (simp add: answer_but_f_def answer_ok_def cnpj_url_def startswith_def)

lemma sanitize_company: "sanitize_cnpj (JStr ''12.345.678/0001-99'') = Inr ''12345678000199''"
  by (simp add: is_digit_def)

lemma sanitize_individual: "sanitize_cnpj (JStr ''123.456.789-09'') = Inr ''12345678909''"
  by (simp add: is_digit_def)

lemma dict_two_ids: "dict_without_error rdap_two_ids"
  by (simp add: dict_without_error_def rdap_two_ids_def)

lemma dict_acme: "dict_without_error receita_acme"
  by (simp add: dict_without_error_def receita_acme_def)

lemma save_acme:
  assumes "format_cnpj_info receita_acme = Inr info" and "d \<notin> set (stored_domains st)"
  shows "\<exists>st'. save_to_csv env d ki info st = Inr (True, st')"
  using assms
  by (auto simp: format_cnpj_info_def receita_acme_def save_to_csv_def stored_domains_def
      new_row_def partner_def not_available_def Let_def)

lemma stored_domains_request [simp]: "stored_domains (request env url st) = stored_domains st"
  by (simp add: stored_domains_def read_table_def)

lemma sleeps_append: "sleeps (xs @ ys) = sleeps xs @ sleeps ys"
  by (induction xs rule: sleeps.induct) simp_all

text \<open>In the example world a domain that is not stored yet is stored.\<close>

lemma process_ok:
  assumes "d \<noteq> ''f.br''" and "d \<notin> set (stored_domains st)"
  shows "raised (process world_six d st) = raised st"
    and "stored_domains (process world_six d st) = stored_domains st @ [d]"
    and "sleeps (new_events st (process world_six d st)) = [10, 10]"
    and "writes (new_events st (process world_six d st)) = 1"
    and "clock (process world_six d st) = clock st + 20"
proof -
  let ?ki = "\<lparr>email_rdap = JStr ''Not available'', cpf_cnpj = JStr ''12.345.678/0001-99'',
             name = JStr ''ACME''\<rparr>"
  let ?s1 = "logging INFO (Processando d) st"
  let ?s2 = "request world_six (rdap_url d) ?s1"
  let ?s3 = "sleep 10 ?s2"
  let ?s4 = "logging INFO (Dados_RDAP_recuperados d) ?s3"
  let ?s5 = "request world_six (cnpj_url ''12345678000199'') ?s4"
  let ?s6 = "sleep 10 ?s5"
  let ?res = "process world_six d st"
  obtain info where f: "format_cnpj_info receita_acme = Inr info"
    by (simp add: format_cnpj_info_def receita_acme_def)
  have nd: "d \<notin> set (stored_domains ?s6)" using assms(2) by simp
  obtain st7 where sv: "save_to_csv world_six d ?ki info ?s6 = Inr (True, st7)"
    using save_acme [OF f nd, where env = world_six and ki = ?ki] by (elim exE)
  have c1: "consulta_rdap world_six d ?s1 = (rdap_two_ids, ?s2)"
    using assms(1) by (simp add: consulta_rdap_def answer_rdap Let_def)
  have c2: "consulta_cnpj world_six ''12345678000199'' ?s4 = (receita_acme, ?s5)"
    by (simp add: consulta_cnpj_def answer_cnpj Let_def)
  have l: "lookup_and_store world_six d ?ki ''12345678000199'' ?s4 =
      logging INFO (Informacoes_salvas d) st7"
    unfolding lookup_and_store_def c2
    by (simp only: prod.case Let_def dict_acme if_True f sum.case sv)
  have k: "cpf_cnpj ?ki = JStr ''12.345.678/0001-99''" by simp
  have t: "truthy (JStr ''12.345.678/0001-99'')" by simp
  have len: "length ''12345678000199'' = 14" by simp
  have en: "enrich world_six d rdap_two_ids ?s3 = logging INFO (Informacoes_salvas d) st7"
    unfolding enrich_def
    by (simp only: dict_two_ids if_True extract_two_ids sum.case Let_def k t sanitize_company
        len l simp_thms)
  have p: "?res = logging INFO (Informacoes_salvas d) st7"
    unfolding process_def by (simp only: Let_def c1 prod.case en)
  note s = save_to_csv_Inr [OF sv]
  from s show "raised ?res = raised st" unfolding p by simp
  from save_to_csv_domains(1) [OF sv] show "stored_domains ?res = stored_domains st @ [d]"
    unfolding p by simp
  from s obtain r where n7: "new_events ?s6 st7 =
      [ToCsv (read_table ?s6 @ [r]), Log INFO (Salvas_com_sucesso d)]" by auto
  from s have "events st7 = events ?s6 @ new_events ?s6 st7" by (simp add: extends_def)
  with n7 have "events ?res = events st @
      [Log INFO (Processando d), HttpGet (rdap_url d), Sleep 10,
       Log INFO (Dados_RDAP_recuperados d), HttpGet (cnpj_url ''12345678000199''), Sleep 10,
       ToCsv (read_table ?s6 @ [r]), Log INFO (Salvas_com_sucesso d),
       Log INFO (Informacoes_salvas d)]"
    unfolding p by simp
  then have n: "new_events st ?res =
      [Log INFO (Processando d), HttpGet (rdap_url d), Sleep 10,
       Log INFO (Dados_RDAP_recuperados d), HttpGet (cnpj_url ''12345678000199''), Sleep 10,
       ToCsv (read_table ?s6 @ [r]), Log INFO (Salvas_com_sucesso d),
       Log INFO (Informacoes_salvas d)]"
    by (rule new_eventsI)
  show "sleeps (new_events st ?res) = [10, 10]" unfolding n by simp
  show "writes (new_events st ?res) = 1" unfolding n by (simp add: writes_def)
  have "extends world_six st ?res" by (rule process_spec)
  then have "clock ?res = clock st + sum_list (map (secs world_six) (new_events st ?res))"
    by (simp add: extends_def)
  then show "clock ?res = clock st + 20" unfolding n by (simp add: no_time_def)
qed

text \<open>In the example world the domain \<^verbatim>\<open>f.br\<close> ends with the error of the registry.\<close>

lemma process_f:
  shows "raised (process world_six ''f.br'' st) = raised st"
    and "stored_domains (process world_six ''f.br'' st) = stored_domains st"
    and "new_events st (process world_six ''f.br'' st) =
           [Log INFO (Processando ''f.br''), HttpGet (rdap_url ''f.br''),
            Log ERROR (Erro_consulta_RDAP ''f.br'' ''404 Client Error''), Sleep 10,
            Log ERROR (Erro_RDAP ''f.br'' (JStr ''404 Client Error''))]"
    and "clock (process world_six ''f.br'' st) = clock st + 10"
    and "CONTADOR_SUCESSO (process world_six ''f.br'' st) = CONTADOR_SUCESSO st"
proof -
  have p: "process world_six ''f.br'' st =
     logging ERROR (Erro_RDAP ''f.br'' (JStr ''404 Client Error''))
       (sleep 10 (logging ERROR (Erro_consulta_RDAP ''f.br'' ''404 Client Error'')
          (request world_six (rdap_url ''f.br'') (logging INFO (Processando ''f.br'') st))))"
    by (simp add: process_def consulta_rdap_def answer_rdap enrich_def dict_without_error_def
        log_error_of_def Let_def)
  show "raised (process world_six ''f.br'' st) = raised st"
    and "stored_domains (process world_six ''f.br'' st) = stored_domains st"
    and "new_events st (process world_six ''f.br'' st) =
           [Log INFO (Processando ''f.br''), HttpGet (rdap_url ''f.br''),
            Log ERROR (Erro_consulta_RDAP ''f.br'' ''404 Client Error''), Sleep 10,
            Log ERROR (Erro_RDAP ''f.br'' (JStr ''404 Client Error''))]"
    and "clock (process world_six ''f.br'' st) = clock st + 10"
    and "CONTADOR_SUCESSO (process world_six ''f.br'' st) = CONTADOR_SUCESSO st"
    unfolding p by (simp_all add: new_events_def no_time_def)
qed

text \<open>One round of the loop in the example world, as the summary sees it.\<close>

lemma loop_ok_summary:
  assumes "summary st = (sl, w, n, ds, None)"
    and "d \<noteq> ''f.br''" and "d \<notin> set ds" and "d \<notin> ex"
  shows "summary (loop_body world_six ex d st) =
           (sl @ [10, 10, 40] @ (if Suc n mod 5 = 0 then [300] else []),
            Suc w, Suc n, ds @ [d], None)"
proof -
  let ?st1 = "process world_six d st"
  let ?st2 = "sleep 40 ?st1"
  from assms(1) have st: "sleeps (events st) = sl" "writes (events st) = w"
    "CONTADOR_SUCESSO st = n" "stored_domains st = ds" "raised st = None"
    by (simp_all add: summary_def)
  from assms(3) st(4) have nd: "d \<notin> set (stored_domains st)" by simp
  note p = process_ok [OF assms(2) nd]
  have e: "extends world_six st ?st1" by (rule process_spec)
  then have ev: "events ?st1 = events st @ new_events st ?st1"
    and c: "CONTADOR_SUCESSO ?st1 = Suc n"
    using p(4) st(3) by (simp_all add: extends_def)
  have fl: "floor_sleep (clock st) ?st1 = ?st2"
    using p(5) by (simp add: floor_sleep_eq)
  have b: "loop_body world_six ex d st = extended_pause ?st2"
    using assms(4) p(1) st(5) fl by (simp add: loop_body_def Let_def)
  have s1: "sleeps (events ?st1) = sl @ [10, 10]" and w1: "writes (events ?st1) = Suc w"
    using ev p(3,4) st(1,2) by (simp_all add: sleeps_append writes_append)
  show ?thesis
    unfolding b summary_def extended_pause_eq
    using s1 w1 c p(1,2) st(4,5)
    by (simp add: sleeps_append writes_append writes_def)
qed

lemma loop_f_summary:
  assumes "summary st = (sl, w, n, ds, None)" and "''f.br'' \<notin> ex"
  shows "summary (loop_body world_six ex ''f.br'' st) =
           (sl @ [10, 50] @ (if 0 < n \<and> n mod 5 = 0 then [300] else []), w, n, ds, None)"
proof -
  let ?st1 = "process world_six ''f.br'' st"
  let ?st2 = "sleep 50 ?st1"
  from assms(1) have st: "sleeps (events st) = sl" "writes (events st) = w"
    "CONTADOR_SUCESSO st = n" "stored_domains st = ds" "raised st = None"
    by (simp_all add: summary_def)
  note p = process_f [where st = st]
  have e: "extends world_six st ?st1" by (rule process_spec)
  then have ev: "events ?st1 = events st @ new_events st ?st1"
    by (simp add: extends_def)
  have fl: "floor_sleep (clock st) ?st1 = ?st2"
    using p(4) by (simp add: floor_sleep_eq)
  have b: "loop_body world_six ex ''f.br'' st = extended_pause ?st2"
    using assms(2) p(1) st(5) fl by (simp add: loop_body_def Let_def)
  have s1: "sleeps (events ?st1) = sl @ [10]" and w1: "writes (events ?st1) = w"
    using ev p(3) st(1,2) by (simp_all add: sleeps_append writes_append writes_def)
  show ?thesis
    unfolding b summary_def extended_pause_eq
    using s1 w1 p(1,2,5) st(3,4,5)
    by (simp add: sleeps_append writes_append writes_def)
qed

lemma main_loop_Cons:
  assumes "summary (loop_body env ex d st) = (sl, w, n, ds, None)"
  shows "main_loop env ex (d # rest) st = main_loop env ex rest (loop_body env ex d st)"
  using assms by (simp add: summary_def Let_def)

lemma summary_start: "summary (start None) = ([], 0, 0, [], None)"
  by (simp add: summary_def start_def writes_def stored_domains_def read_table_def)

text \<open>The run of the example world, round by round.\<close>

lemma four_rounds:
  "summary (main_loop world_six {} [''a.br'', ''b.br'', ''c.br'', ''d.br''] (start None)) =
     ([10, 10, 40, 10, 10, 40, 10, 10, 40, 10, 10, 40], 4, 4,
      [''a.br'', ''b.br'', ''c.br'', ''d.br''], None)"
proof -
  let ?s0 = "start None"
  let ?s1 = "loop_body world_six {} ''a.br'' ?s0"
  let ?s2 = "loop_body world_six {} ''b.br'' ?s1"
  let ?s3 = "loop_body world_six {} ''c.br'' ?s2"
  let ?s4 = "loop_body world_six {} ''d.br'' ?s3"
  have s1: "summary ?s1 = ([10, 10, 40], 1, 1, [''a.br''], None)"
    using loop_ok_summary [OF summary_start, of "''a.br''" "{}"] by simp
  have s2: "summary ?s2 = ([10, 10, 40, 10, 10, 40], 2, 2, [''a.br'', ''b.br''], None)"
    using loop_ok_summary [OF s1, of "''b.br''" "{}"] by simp
  have s3: "summary ?s3 =
      ([10, 10, 40, 10, 10, 40, 10, 10, 40], 3, 3, [''a.br'', ''b.br'', ''c.br''], None)"
    using loop_ok_summary [OF s2, of "''c.br''" "{}"] by simp
  have s4: "summary ?s4 =
      ([10, 10, 40, 10, 10, 40, 10, 10, 40, 10, 10, 40], 4, 4,
       [''a.br'', ''b.br'', ''c.br'', ''d.br''], None)"
    using loop_ok_summary [OF s3, of "''d.br''" "{}"] by simp
  show ?thesis
    unfolding main_loop_Cons [OF s1] main_loop_Cons [OF s2] main_loop_Cons [OF s3]
      main_loop_Cons [OF s4]
    using s4 by simp
qed

lemma main_loop_append:
  "raised (main_loop env ex xs st) = None \<Longrightarrow>
   main_loop env ex (xs @ ys) st = main_loop env ex ys (main_loop env ex xs st)"
proof (induction xs arbitrary: st)
  case Nil
  then show ?case by simp
next
  case (Cons d rest)
  then show ?case
    by (cases "raised (loop_body env ex d st) = None") (simp_all add: Let_def)
qed

lemma six_rounds:
  "summary (main world_six (start None)) =
     ([10, 10, 40, 10, 10, 40, 10, 10, 40, 10, 10, 40, 10, 10, 40, 300, 10, 50, 300], 5, 5,
      [''a.br'', ''b.br'', ''c.br'', ''d.br'', ''e.br''], None)"
proof -
  let ?s4 = "main_loop world_six {} [''a.br'', ''b.br'', ''c.br'', ''d.br''] (start None)"
  let ?s5 = "loop_body world_six {} ''e.br'' ?s4"
  let ?s6 = "loop_body world_six {} ''f.br'' ?s5"
  have c: "clean_domains [''a.br'', ''b.br'', ''c.br'', ''d.br'', ''e.br'', ''f.br''] =
      Inr [''a.br'', ''b.br'', ''c.br'', ''d.br'', ''e.br'', ''f.br'']"
    by (simp add: clean_domains_def clean_defs endswith_def)
  have r: "raised ?s4 = None" using four_rounds by (simp add: summary_def)
  have s5: "summary ?s5 =
      ([10, 10, 40, 10, 10, 40, 10, 10, 40, 10, 10, 40, 10, 10, 40, 300], 5, 5,
       [''a.br'', ''b.br'', ''c.br'', ''d.br'', ''e.br''], None)"
    using loop_ok_summary [OF four_rounds, of "''e.br''" "{}"] by simp
  have s6: "summary ?s6 =
      ([10, 10, 40, 10, 10, 40, 10, 10, 40, 10, 10, 40, 10, 10, 40, 300, 10, 50, 300], 5, 5,
       [''a.br'', ''b.br'', ''c.br'', ''d.br'', ''e.br''], None)"
    using loop_f_summary [OF s5, of "{}"] by simp
  have "main world_six (start None) =
      main_loop world_six {} ([''a.br'', ''b.br'', ''c.br'', ''d.br''] @ [''e.br'', ''f.br''])
        (start None)"
    using c by (simp add: main_def start_def read_table_def)
  also have "\<dots> = main_loop world_six {} [''e.br'', ''f.br''] ?s4"
    using r by (rule main_loop_append)
  also have "\<dots> = ?s6"
    unfolding main_loop_Cons [OF s5] main_loop_Cons [OF s6] by simp
  finally show ?thesis using s6 by simp
qed

section \<open>The claims about the orchestrator\<close>

text \<open>
  The branch \<^verbatim>\<open>CNPJ nao encontrado\<close> of the loop is never taken: the extractor puts
  \<^verbatim>\<open>Not available\<close> where it found no identifier, and that is a true value.
\<close>

lemma enrich_found:
  assumes "dict_without_error rdap_resultado"
    and "extract_key_info rdap_resultado = Inr key_info"
    and "sanitize_cnpj (cpf_cnpj key_info) = Inr cnpj"
  shows "enrich env dominio rdap_resultado st =
     (if length cnpj = 14
      then lookup_and_store env dominio key_info cnpj
             (logging INFO (Dados_RDAP_recuperados dominio) st)
      else logging WARNING (Nao_e_CNPJ_valido dominio)
             (logging INFO (Dados_RDAP_recuperados dominio) st))"
  using assms extract_key_info_truthy [OF assms(2)]
  by (simp add: enrich_def)

text \<open>
  C7. Sanitizing keeps the digits of the identifier, in their order, and nothing
  else, so \<^verbatim>\<open>12.345.678/0001-99\<close> gives \<^verbatim>\<open>12345678000199\<close>. After a successful
  extraction, a request is made if and only if the sanitized identifier has 14
  characters, and it is the request to the company registry for that identifier;
  for any other length the loop logs the warning and does nothing else.
\<close>

theorem identifier_gating:
  "sanitize_cnpj (JStr ''12.345.678/0001-99'') = Inr ''12345678000199'' \<and>
   (sanitize_cnpj x = Inr t \<longrightarrow>
      (\<exists>s. x = JStr s \<and> t = filter is_digit s) \<and> (\<forall>c \<in> set t. is_digit c)) \<and>
   (dict_without_error rdap_resultado \<and>
    extract_key_info rdap_resultado = Inr key_info \<and>
    sanitize_cnpj (cpf_cnpj key_info) = Inr cnpj \<longrightarrow>
      ((\<exists>url. HttpGet url \<in> set (new_events st (enrich env dominio rdap_resultado st)))
         \<longleftrightarrow> length cnpj = 14) \<and>
      (length cnpj = 14 \<longrightarrow>
         (\<exists>evs. new_events st (enrich env dominio rdap_resultado st) =
            Log INFO (Dados_RDAP_recuperados dominio) # HttpGet (cnpj_url cnpj) # evs)) \<and>
      (length cnpj \<noteq> 14 \<longrightarrow>
         enrich env dominio rdap_resultado st =
           logging WARNING (Nao_e_CNPJ_valido dominio)
             (logging INFO (Dados_RDAP_recuperados dominio) st)))"
proof (intro conjI impI)
  show "sanitize_cnpj (JStr ''12.345.678/0001-99'') = Inr ''12345678000199''"
    by (rule sanitize_company)
next
  assume "sanitize_cnpj x = Inr t"
  then show "\<exists>s. x = JStr s \<and> t = filter is_digit s" by (cases x) auto
next
  assume "sanitize_cnpj x = Inr t"
  then show "\<forall>c \<in> set t. is_digit c" by (cases x) auto
next
  assume a: "dict_without_error rdap_resultado \<and>
    extract_key_info rdap_resultado = Inr key_info \<and>
    sanitize_cnpj (cpf_cnpj key_info) = Inr cnpj"
  let ?st1 = "logging INFO (Dados_RDAP_recuperados dominio) st"
  let ?res = "enrich env dominio rdap_resultado st"
  from a have e: "?res =
     (if length cnpj = 14 then lookup_and_store env dominio key_info cnpj ?st1
      else logging WARNING (Nao_e_CNPJ_valido dominio) ?st1)"
    by (simp add: enrich_found)
  have yes: "\<exists>evs. new_events st ?res =
      Log INFO (Dados_RDAP_recuperados dominio) # HttpGet (cnpj_url cnpj) # evs"
    if l: "length cnpj = 14"
  proof -
    note s = lookup_and_store_spec [where env = env and st = ?st1 and dominio = dominio
        and key_info = key_info and cnpj = cnpj]
    from s(2) obtain evs where
      "new_events ?st1 (lookup_and_store env dominio key_info cnpj ?st1) =
         HttpGet (cnpj_url cnpj) # evs" by blast
    with new_events_trans [OF extends_logging s(1)] e l show ?thesis by simp
  qed
  have no: "new_events st ?res =
      [Log INFO (Dados_RDAP_recuperados dominio), Log WARNING (Nao_e_CNPJ_valido dominio)]"
    if "length cnpj \<noteq> 14"
    using e that by (simp add: new_events_def)
  show "(\<exists>url. HttpGet url \<in> set (new_events st ?res)) \<longleftrightarrow> length cnpj = 14"
  proof
    assume "\<exists>url. HttpGet url \<in> set (new_events st ?res)"
    then show "length cnpj = 14" using no by (cases "length cnpj = 14") auto
  next
    assume "length cnpj = 14"
    from yes [OF this] show "\<exists>url. HttpGet url \<in> set (new_events st ?res)" by auto
  qed
  show "\<exists>evs. new_events st ?res =
      Log INFO (Dados_RDAP_recuperados dominio) # HttpGet (cnpj_url cnpj) # evs"
    if "length cnpj = 14" using yes that .
  show "?res = logging WARNING (Nao_e_CNPJ_valido dominio) ?st1"
    if "length cnpj \<noteq> 14" using e that by simp
qed

lemma extract_cpf:
  "extract_key_info rdap_cpf =
     Inr \<lparr>email_rdap = JStr ''Not available'', cpf_cnpj = JStr ''123.456.789-09'',
          name = JStr ''Not available''\<rparr>"
  by (simp add: rdap_cpf_def extract_defs)

theorem identifier_gating_witness:
  "sanitize_cnpj (JStr ''123.456.789-09'') = Inr ''12345678909'' \<and>
   dict_without_error rdap_cpf \<and>
   extract_key_info rdap_cpf =
     Inr \<lparr>email_rdap = JStr ''Not available'', cpf_cnpj = JStr ''123.456.789-09'',
          name = JStr ''Not available''\<rparr> \<and>
   length ''12345678909'' \<noteq> 14 \<and>
   enrich world_six ''a.br'' rdap_cpf (start None) =
     logging WARNING (Nao_e_CNPJ_valido ''a.br'')
       (logging INFO (Dados_RDAP_recuperados ''a.br'') (start None))"
proof -
  have d: "dict_without_error rdap_cpf"
    by (simp add: dict_without_error_def rdap_cpf_def)
  have s: "sanitize_cnpj (cpf_cnpj \<lparr>email_rdap = JStr ''Not available'',
      cpf_cnpj = JStr ''123.456.789-09'', name = JStr ''Not available''\<rparr>) = Inr ''12345678909''"
    by (simp add: is_digit_def)
  from identifier_gating [of "JStr ''123.456.789-09''" "''12345678909''" rdap_cpf
      "\<lparr>email_rdap = JStr ''Not available'', cpf_cnpj = JStr ''123.456.789-09'',
        name = JStr ''Not available''\<rparr>" "''12345678909''" "start None" world_six "''a.br''"]
    d s extract_cpf sanitize_individual
  show ?thesis by simp
qed

text \<open>
  C9. A record retrieved without error in which the extractor finds no tax
  identifier: the loop takes the branch of the identifier that is not a company
  identifier, not the branch of the missing identifier. No request and no write
  follow.
\<close>

theorem missing_identifier_reported_as_invalid:
  "extract_key_info (JDict [(''entities'', JList [])]) =
     Inr \<lparr>email_rdap = JStr ''Not available'', cpf_cnpj = JStr ''Not available'',
          name = JStr ''Not available''\<rparr> \<and>
   enrich env dominio (JDict [(''entities'', JList [])]) st =
     logging WARNING (Nao_e_CNPJ_valido dominio)
       (logging INFO (Dados_RDAP_recuperados dominio) st) \<and>
   enrich env dominio (JDict [(''entities'', JList [])]) st \<noteq>
     logging WARNING (CNPJ_nao_encontrado dominio)
       (logging INFO (Dados_RDAP_recuperados dominio) st)"
proof -
  have x: "extract_key_info (JDict [(''entities'', JList [])]) =
     Inr \<lparr>email_rdap = JStr ''Not available'', cpf_cnpj = JStr ''Not available'',
          name = JStr ''Not available''\<rparr>"
    by (simp add: extract_defs)
  have d: "dict_without_error (JDict [(''entities'', JList [])])"
    by (simp add: dict_without_error_def)
  have s: "sanitize_cnpj (cpf_cnpj \<lparr>email_rdap = JStr ''Not available'',
      cpf_cnpj = JStr ''Not available'', name = JStr ''Not available''\<rparr>) = Inr []"
    by (simp add: is_digit_def)
  have e: "enrich env dominio (JDict [(''entities'', JList [])]) st =
     logging WARNING (Nao_e_CNPJ_valido dominio)
       (logging INFO (Dados_RDAP_recuperados dominio) st)"
    using enrich_found [OF d x s] by simp
  have "events (logging WARNING (Nao_e_CNPJ_valido dominio)
          (logging INFO (Dados_RDAP_recuperados dominio) st)) \<noteq>
        events (logging WARNING (CNPJ_nao_encontrado dominio)
          (logging INFO (Dados_RDAP_recuperados dominio) st))"
    by simp
  then have "logging WARNING (Nao_e_CNPJ_valido dominio)
          (logging INFO (Dados_RDAP_recuperados dominio) st) \<noteq>
        logging WARNING (CNPJ_nao_encontrado dominio)
          (logging INFO (Dados_RDAP_recuperados dominio) st)"
    by metis
  with x e show ?thesis by simp
qed

text \<open>
  C3. For a domain that is processed without an exception, the wait at the end of
  the round is \<open>max 0 (60 - elapsed)\<close>, where \<open>elapsed\<close> is the time since the
  processing of the domain began: the time of the requests and of the waits of ten
  seconds made for it. After the wait at least 60 seconds have gone by, and the
  wait is zero when the processing took 60 seconds or more.
\<close>

theorem pacing_floor:
  assumes "dominio \<notin> dominios_existentes"
    and "raised (process env dominio st) = None"
  shows "let st1 = process env dominio st;
             elapsed = clock st1 - clock st;
             st2 = floor_sleep (clock st) st1
         in loop_body env dominios_existentes dominio st = extended_pause st2 \<and>
            new_events st1 st2 = [Sleep (max 0 (60 - elapsed))] \<and>
            elapsed = sum_list (map (secs env) (new_events st st1)) \<and>
            Sleep 10 \<in> set (new_events st st1) \<and>
            clock st2 - clock st = max 60 elapsed \<and>
            (60 \<le> elapsed \<longrightarrow> new_events st1 st2 = [Sleep 0])"
proof -
  let ?st1 = "process env dominio st"
  let ?st2 = "floor_sleep (clock st) ?st1"
  have b: "loop_body env dominios_existentes dominio st = extended_pause ?st2"
    using assms by (simp add: loop_body_def Let_def)
  have n: "new_events ?st1 ?st2 = [Sleep (max 0 (60 - (clock ?st1 - clock st)))]"
    by (simp add: floor_sleep_eq)
  have "extends env st ?st1" by (rule process_spec)
  then have e: "clock ?st1 - clock st = sum_list (map (secs env) (new_events st ?st1))"
    by (simp add: extends_def)
  have s: "Sleep 10 \<in> set (new_events st ?st1)"
    using process_spec(2) [where env = env and st = st and dominio = dominio] by auto
  have c: "clock ?st2 - clock st = max 60 (clock ?st1 - clock st)"
    by (simp add: floor_sleep_eq)
  have z: "new_events ?st1 ?st2 = [Sleep 0]" if "60 \<le> clock ?st1 - clock st"
    using n that by simp
  from b n e s c z show ?thesis by (simp add: Let_def)
qed

theorem pacing_floor_witness:
  "''f.br'' \<notin> ({} :: string set) \<and>
   raised (process world_six ''f.br'' (start None)) = None \<and>
   clock (process world_six ''f.br'' (start None)) - clock (start None) = 10 \<and>
   new_events (process world_six ''f.br'' (start None))
     (floor_sleep (clock (start None)) (process world_six ''f.br'' (start None))) = [Sleep 50] \<and>
   clock (floor_sleep (clock (start None)) (process world_six ''f.br'' (start None)))
     - clock (start None) = 60"
proof -
  have a: "''f.br'' \<notin> ({} :: string set)" by simp
  have r: "raised (process world_six ''f.br'' (start None)) = None"
    by (simp add: process_f start_def)
  have c: "clock (process world_six ''f.br'' (start None)) - clock (start None) = 10"
    by (simp add: process_f)
  from pacing_floor [OF a r] r c show ?thesis by (simp add: Let_def)
qed

text \<open>
  C2, as stated, fails. In the example world five domains are stored and the sixth
  is unknown to the registry. The wait of 300 seconds comes after the wait of 40
  seconds that completes the minute of the fifth domain, not before it; and it is
  made again after the sixth domain, which wrote nothing: two waits of 300 seconds
  for five writes.
\<close>

theorem extended_pause_after_floor_and_repeated:
  "sleeps (events (main world_six (start None))) =
     [10, 10, 40, 10, 10, 40, 10, 10, 40, 10, 10, 40, 10, 10, 40, 300, 10, 50, 300] \<and>
   writes (events (main world_six (start None))) = 5 \<and>
   CONTADOR_SUCESSO (main world_six (start None)) = 5"
  using six_rounds by (simp add: summary_def)

text \<open>
  C2, amended. The counter is the number of writes made so far and is never reset.
  For a domain processed without an exception: the processing makes at most one
  write; when it makes one that brings the counter to a multiple of 5, the wait of
  300 seconds is made once, announced by a log line, at the end of the round and
  after the wait that completes the minute; when the counter is 0 or is not a
  multiple of 5 at the end of the round, no such wait is made, so that a domain
  that wrote nothing gets none while nothing has been written yet.
\<close>

theorem extended_pause_follows_floor_sleep:
  "CONTADOR_SUCESSO (main_loop env dominios_existentes domains st) =
     CONTADOR_SUCESSO st + writes (new_events st (main_loop env dominios_existentes domains st)) \<and>
   (dominio \<notin> dominios_existentes \<and> raised (process env dominio st) = None \<longrightarrow>
     (let st1 = process env dominio st;
          st2 = floor_sleep (clock st) st1;
          st3 = loop_body env dominios_existentes dominio st
      in CONTADOR_SUCESSO st1 = CONTADOR_SUCESSO st + writes (new_events st st1) \<and>
         writes (new_events st st1) \<le> 1 \<and>
         CONTADOR_SUCESSO st3 = CONTADOR_SUCESSO st1 \<and>
         new_events st1 st2 = [Sleep (max 0 (60 - (clock st1 - clock st)))] \<and>
         (writes (new_events st st1) = 1 \<and> CONTADOR_SUCESSO st1 mod 5 = 0 \<longrightarrow>
            new_events st2 st3 =
              [Log INFO (Aplicando_atraso 5 (CONTADOR_SUCESSO st1)), Sleep 300]) \<and>
         (CONTADOR_SUCESSO st1 = 0 \<or> CONTADOR_SUCESSO st1 mod 5 \<noteq> 0 \<longrightarrow> st3 = st2)))"
proof (intro conjI impI)
  show "CONTADOR_SUCESSO (main_loop env dominios_existentes domains st) =
     CONTADOR_SUCESSO st + writes (new_events st (main_loop env dominios_existentes domains st))"
    using main_loop_spec(1) [where env = env and st = st and domains = domains
        and dominios_existentes = dominios_existentes]
    by (simp add: extends_def)
next
  assume a: "dominio \<notin> dominios_existentes \<and> raised (process env dominio st) = None"
  let ?st1 = "process env dominio st"
  let ?st2 = "floor_sleep (clock st) ?st1"
  let ?st3 = "loop_body env dominios_existentes dominio st"
  have b: "?st3 = extended_pause ?st2"
    using a by (simp add: loop_body_def Let_def)
  have "extends env st ?st1" by (rule process_spec)
  then have c: "CONTADOR_SUCESSO ?st1 = CONTADOR_SUCESSO st + writes (new_events st ?st1)"
    by (simp add: extends_def)
  have w: "writes (new_events st ?st1) \<le> 1" by (rule process_spec)
  have c3: "CONTADOR_SUCESSO ?st3 = CONTADOR_SUCESSO ?st1"
    unfolding b by simp
  have n: "new_events ?st1 ?st2 = [Sleep (max 0 (60 - (clock ?st1 - clock st)))]"
    by (simp add: floor_sleep_eq)
  have p: "new_events ?st2 ?st3 =
      [Log INFO (Aplicando_atraso 5 (CONTADOR_SUCESSO ?st1)), Sleep 300]"
    if "writes (new_events st ?st1) = 1 \<and> CONTADOR_SUCESSO ?st1 mod 5 = 0"
  proof -
    from that have m: "CONTADOR_SUCESSO ?st1 mod 5 = 0" by blast
    from that c have "0 < CONTADOR_SUCESSO ?st1" by linarith
    with m have "CONTADOR_SUCESSO ?st2 > 0 \<and> CONTADOR_SUCESSO ?st2 mod 5 = 0"
      by simp
    then show ?thesis
      unfolding b by (simp add: extended_pause_eq new_events_def)
  qed
  have q: "?st3 = ?st2" if "CONTADOR_SUCESSO ?st1 = 0 \<or> CONTADOR_SUCESSO ?st1 mod 5 \<noteq> 0"
    unfolding b using that by (auto simp: extended_pause_eq)
  from c w c3 n p q
  show "let st1 = process env dominio st;
            st2 = floor_sleep (clock st) st1;
            st3 = loop_body env dominios_existentes dominio st
        in CONTADOR_SUCESSO st1 = CONTADOR_SUCESSO st + writes (new_events st st1) \<and>
           writes (new_events st st1) \<le> 1 \<and>
           CONTADOR_SUCESSO st3 = CONTADOR_SUCESSO st1 \<and>
           new_events st1 st2 = [Sleep (max 0 (60 - (clock st1 - clock st)))] \<and>
           (writes (new_events st st1) = 1 \<and> CONTADOR_SUCESSO st1 mod 5 = 0 \<longrightarrow>
              new_events st2 st3 =
                [Log INFO (Aplicando_atraso 5 (CONTADOR_SUCESSO st1)), Sleep 300]) \<and>
           (CONTADOR_SUCESSO st1 = 0 \<or> CONTADOR_SUCESSO st1 mod 5 \<noteq> 0 \<longrightarrow> st3 = st2)"
    unfolding Let_def by blast
qed

theorem extended_pause_follows_floor_sleep_witness:
  "''e.br'' \<notin> ({} :: string set) \<and>
   raised (process world_six ''e.br'' four_stored) = None \<and>
   writes (new_events four_stored (process world_six ''e.br'' four_stored)) = 1 \<and>
   CONTADOR_SUCESSO (process world_six ''e.br'' four_stored) = 5 \<and>
   new_events (floor_sleep (clock four_stored) (process world_six ''e.br'' four_stored))
     (loop_body world_six {} ''e.br'' four_stored) =
     [Log INFO (Aplicando_atraso 5 5), Sleep 300] \<and>
   ''f.br'' \<notin> ({} :: string set) \<and>
   raised (process world_six ''f.br'' (start None)) = None \<and>
   writes (new_events (start None) (process world_six ''f.br'' (start None))) = 0 \<and>
   CONTADOR_SUCESSO (process world_six ''f.br'' (start None)) = 0 \<and>
   loop_body world_six {} ''f.br'' (start None) =
     floor_sleep (clock (start None)) (process world_six ''f.br'' (start None)) \<and>
   sleeps (events (loop_body world_six {} ''f.br'' (start None))) = [10, 50]"
proof -
  have s: "stored_domains four_stored = [''a.br'', ''b.br'', ''c.br'', ''d.br'']"
    "CONTADOR_SUCESSO four_stored = 4" "raised four_stored = None"
    using four_rounds by (simp_all add: summary_def four_stored_def)
  have a: "''e.br'' \<notin> ({} :: string set)" by simp
  have n: "''e.br'' \<notin> set (stored_domains four_stored)" by (simp add: s)
  have d: "''e.br'' \<noteq> ''f.br''" by simp
  note p = process_ok [OF d n]
  have r: "raised (process world_six ''e.br'' four_stored) = None"
    using p(1) s(3) by simp
  have w: "writes (new_events four_stored (process world_six ''e.br'' four_stored)) = 1"
    by (rule p(4))
  have a': "''f.br'' \<notin> ({} :: string set)" by simp
  have r': "raised (process world_six ''f.br'' (start None)) = None"
    by (simp add: process_f start_def)
  have w': "writes (new_events (start None) (process world_six ''f.br'' (start None))) = 0"
    by (simp add: process_f writes_def)
  have c': "CONTADOR_SUCESSO (process world_six ''f.br'' (start None)) = 0"
    by (simp add: process_f start_def)
  have sl: "sleeps (events (loop_body world_six {} ''f.br'' (start None))) = [10, 50]"
    using loop_f_summary [OF summary_start, of "{}"] by (simp add: summary_def)
  from extended_pause_follows_floor_sleep [where env = world_six and st = four_stored
      and dominio = "''e.br''" and dominios_existentes = "{}" and domains = "[]"]
    extended_pause_follows_floor_sleep [where env = world_six and st = "start None"
      and dominio = "''f.br''" and dominios_existentes = "{}" and domains = "[]"]
    a r w s(2) a' r' w' c' sl
  show ?thesis by (simp add: Let_def)
qed

section \<open>The claim about resumption\<close>

lemma main_distinct:
  assumes "distinct (stored_domains st)"
  shows "distinct (stored_domains (main env st))"
proof (cases "read_domains (dominios_csv env)")
  case None
  with assms show ?thesis by (simp add: main_def)
next
  case (Some domains)
  show ?thesis
  proof (cases "clean_domains domains")
    case (Inl e)
    with Some assms show ?thesis by (simp add: main_def)
  next
    case (Inr cleaned)
    with Some have "main env st = main_loop env (set (map Domain (read_table st))) cleaned st"
      by (simp add: main_def)
    with assms show ?thesis by (simp add: main_loop_spec(2))
  qed
qed

lemma stored_domains_start_run:
  "stored_domains (start (run env file)) = stored_domains (main env (start file))"
  by (simp add: run_def start_def stored_domains_def read_table_def)

text \<open>A run whose cleaned domains are all keys of the table only logs.\<close>

lemma main_all_present:
  assumes "read_domains (dominios_csv env) = Some domains"
    and "clean_domains domains = Inr cleaned"
    and "set cleaned \<subseteq> set (stored_domains (start file))"
  shows "main env (start file) =
           (start file)\<lparr>events := map (\<lambda>d. Log INFO (Ja_esta_na_planilha d)) cleaned\<rparr>"
proof -
  have r: "raised (start file) = None" by (simp add: start_def)
  have e: "events (start file) = []" by (simp add: start_def)
  from assms(3) have sub: "set cleaned \<subseteq> set (map Domain (read_table (start file)))"
    by (simp add: stored_domains_def)
  from assms(1,2) have "main env (start file) =
      main_loop env (set (map Domain (read_table (start file)))) cleaned (start file)"
    by (simp add: main_def)
  also have "\<dots> = (start file)\<lparr>events := events (start file) @
      map (\<lambda>d. Log INFO (Ja_esta_na_planilha d)) cleaned\<rparr>"
    using sub r by (rule main_loop_all_present)
  finally show ?thesis using e by simp
qed

lemma run_all_present:
  assumes "read_domains (dominios_csv env) = Some domains"
    and "clean_domains domains = Inr cleaned"
    and "set cleaned \<subseteq> set (stored_domains (start file))"
  shows "run env file = file"
  unfolding run_def main_all_present [OF assms] by (simp add: start_def)

text \<open>
  C1. An append for a domain that is a key of the table returns false and leaves
  the table and the counter as they are, whether the key was there before the run
  or was appended in it (the table is read again at every append). When every
  cleaned domain of the input list is a key of the output table, a run only logs
  and leaves the table as it is, and so does a second run on the same input list.
  Any run, and any second run after it, keeps the keys of the table distinct.
\<close>

theorem idempotent_resumption:
  "(dominio \<in> set (stored_domains st) \<longrightarrow>
      save_to_csv env dominio rdap_info cnpj_info st =
        Inr (False, logging INFO (Ja_esta_na_planilha dominio) st) \<and>
      informacoes_empresa_csv (logging INFO (Ja_esta_na_planilha dominio) st) =
        informacoes_empresa_csv st \<and>
      CONTADOR_SUCESSO (logging INFO (Ja_esta_na_planilha dominio) st) = CONTADOR_SUCESSO st) \<and>
   (read_domains (dominios_csv env) = Some domains \<and>
    clean_domains domains = Inr cleaned \<and>
    set cleaned \<subseteq> set (stored_domains (start table)) \<and>
    dominios_csv env' = dominios_csv env \<longrightarrow>
      run env table = table \<and> run env' (run env table) = table \<and>
      events (main env (start table)) = map (\<lambda>d. Log INFO (Ja_esta_na_planilha d)) cleaned) \<and>
   (distinct (stored_domains (start table)) \<longrightarrow>
      distinct (stored_domains (start (run env table))) \<and>
      distinct (stored_domains (start (run env' (run env table)))))"
proof (intro conjI impI)
  assume "dominio \<in> set (stored_domains st)"
  then show "save_to_csv env dominio rdap_info cnpj_info st =
        Inr (False, logging INFO (Ja_esta_na_planilha dominio) st)"
    by (rule save_to_csv_present)
next
  show "informacoes_empresa_csv (logging INFO (Ja_esta_na_planilha dominio) st) =
        informacoes_empresa_csv st" by simp
next
  show "CONTADOR_SUCESSO (logging INFO (Ja_esta_na_planilha dominio) st) = CONTADOR_SUCESSO st"
    by simp
next
  assume a: "read_domains (dominios_csv env) = Some domains \<and>
    clean_domains domains = Inr cleaned \<and>
    set cleaned \<subseteq> set (stored_domains (start table)) \<and>
    dominios_csv env' = dominios_csv env"
  then have 1: "read_domains (dominios_csv env) = Some domains"
    and 2: "clean_domains domains = Inr cleaned"
    and 3: "set cleaned \<subseteq> set (stored_domains (start table))"
    and 4: "read_domains (dominios_csv env') = Some domains"
    by simp_all
  show r: "run env table = table" using 1 2 3 by (rule run_all_present)
  show "run env' (run env table) = table"
    unfolding r using 4 2 3 by (rule run_all_present)
  show "events (main env (start table)) = map (\<lambda>d. Log INFO (Ja_esta_na_planilha d)) cleaned"
    unfolding main_all_present [OF 1 2 3] by simp
next
  assume d: "distinct (stored_domains (start table))"
  then have "distinct (stored_domains (main env (start table)))"
    by (rule main_distinct)
  then show d1: "distinct (stored_domains (start (run env table)))"
    by (simp only: stored_domains_start_run)
  then have "distinct (stored_domains (main env' (start (run env table))))"
    by (rule main_distinct)
  then show "distinct (stored_domains (start (run env' (run env table))))"
    by (simp only: stored_domains_start_run)
qed

theorem idempotent_resumption_witness:
  "''a.br'' \<in> set (stored_domains (start table_a)) \<and>
   read_domains (dominios_csv world_a) = Some [''http://www.a.br/''] \<and>
   clean_domains [''http://www.a.br/''] = Inr [''a.br''] \<and>
   set [''a.br''] \<subseteq> set (stored_domains (start table_a)) \<and>
   distinct (stored_domains (start table_a)) \<and>
   save_to_csv world_a ''a.br'' key_info_none JNull (start table_a) =
     Inr (False, logging INFO (Ja_esta_na_planilha ''a.br'') (start table_a)) \<and>
   run world_a table_a = table_a \<and>
   run world_a (run world_a table_a) = table_a \<and>
   events (main world_a (start table_a)) = [Log INFO (Ja_esta_na_planilha ''a.br'')] \<and>
   distinct (stored_domains (start (run world_a (run world_a table_a))))"
proof -
  have s: "stored_domains (start table_a) = [''a.br'']"
    by (simp add: stored_domains_def read_table_def start_def table_a_def)
  have r: "read_domains (dominios_csv world_a) = Some [''http://www.a.br/'']"
    by (simp add: world_a_def)
  have c: "clean_domains [''http://www.a.br/''] = Inr [''a.br'']"
    by (simp add: clean_domains_def clean_defs endswith_def)
  from idempotent_resumption [where dominio = "''a.br''" and st = "start table_a"
      and env = world_a and env' = world_a and table = table_a
      and domains = "[''http://www.a.br/'']" and cleaned = "[''a.br'']"
      and rdap_info = key_info_none and cnpj_info = JNull] s r c
  show ?thesis by simp
qed

end
